theory Spec2Isabelle
  imports Complex_Main "HOL-Library.Word" "HOL-Library.Signed_Division" "HOL-Library.Log_Nat"
begin

section \<open>The timer daemon of pomidoras\<close>

text \<open>
  The daemon (the second program of \<open>src/unnamed/part_001\<close>) keeps one \<open>Timer\<close>, counted
  down by a goroutine \<open>run\<close> that ranges over the channel of a \<open>time.Ticker\<close>, and serves
  one JSON request per connection on a Unix socket. \<open>src/pomidorasctl/main.go\<close> is the
  client.
\<close>

subsection \<open>Durations and states\<close>

text \<open>
  \<open>time.Duration\<close> is an \<open>int64\<close> count of nanoseconds: arithmetic wraps around and
  comparisons are signed (\<open><s\<close>, \<open>\<le>s\<close>). Go's \<open>int\<close> is taken at its 64-bit size.
\<close>

type_synonym Duration = "64 word"
type_synonym go_int = "64 word"

definition Second :: Duration where
  "Second = 1000000000"

text \<open>\<open>type State string\<close> with its two constants.\<close>

type_synonym State = string

definition StateCountdown :: State where
  "StateCountdown = ''countdown''"

definition StateIdle :: State where
  "StateIdle = ''idle''"

subsection \<open>The timer, its tickers and its goroutines\<close>

text \<open>
  A \<open>*time.Ticker\<close> is an address into the list \<open>tickers\<close>; \<open>None\<close> is \<open>nil\<close>. Of a ticker
  the model keeps whether \<open>Stop\<close> was called and whether a tick waits in its channel
  (capacity one; \<open>Stop\<close> does not close or drain the channel).
\<close>

record Ticker =
  stopped :: bool
  pending :: bool

text \<open>
  A goroutine executing \<open>run\<close>: started but not yet at \<open>range t.ticker.C\<close>; blocked
  receiving from the channel of the ticker it read there; holding a received tick and
  about to call \<open>t.mu.Lock()\<close>; or returned.
\<close>

datatype goroutine = Spawned | Waiting nat | Woken nat | Returned

text \<open>
  The fields of \<open>Timer\<close> that the daemon reads (\<open>mu\<close> is modelled by running every
  critical section as one step; \<open>terminalWidth\<close> is never read by the daemon).
\<close>

record Timer =
  duration :: Duration
  initialDuration :: Duration
  state :: State
  ticker :: "nat option"

text \<open>
  The process around the timer: the tickers allocated so far, the \<open>run\<close> goroutines
  started so far, the number of calls of \<open>sendNotification\<close>, and whether a nil ticker
  was dereferenced (a panic).
\<close>

record Daemon = Timer +
  tickers :: "Ticker list"
  runs :: "goroutine list"
  notified :: nat
  panicked :: bool

definition NewTimer :: "Duration \<Rightarrow> Daemon" where
  "NewTimer initial =
     \<lparr>duration = initial, initialDuration = initial,
      state = (if 0 <s initial then StateCountdown else StateIdle),
      ticker = None, tickers = [], runs = [], notified = 0, panicked = False\<rparr>"

text \<open>\<open>t.ticker = time.NewTicker(1 * time.Second)\<close>\<close>

definition NewTicker :: "Daemon \<Rightarrow> Daemon" where
  "NewTicker w =
     w\<lparr>ticker := Some (length (tickers w)),
       tickers := tickers w @ [\<lparr>stopped = False, pending = False\<rparr>]\<rparr>"

text \<open>\<open>t.ticker.Stop()\<close>; on a nil ticker the dereference panics.\<close>

definition StopTicker :: "Daemon \<Rightarrow> Daemon" where
  "StopTicker w =
     (case ticker w of
        None \<Rightarrow> w\<lparr>panicked := True\<rparr>
      | Some k \<Rightarrow> w\<lparr>tickers := (tickers w)[k := (tickers w ! k)\<lparr>stopped := True\<rparr>]\<rparr>)"

text \<open>\<open>go t.run()\<close>\<close>

definition go_run :: "Daemon \<Rightarrow> Daemon" where
  "go_run w = w\<lparr>runs := runs w @ [Spawned]\<rparr>"

definition Start :: "Daemon \<Rightarrow> Daemon" where
  "Start w =
     (if 0 <s duration w
      then go_run (NewTicker (w\<lparr>state := StateCountdown\<rparr>))
      else w\<lparr>state := StateIdle\<rparr>)"

definition AddSeconds :: "go_int \<Rightarrow> Daemon \<Rightarrow> Daemon" where
  "AddSeconds seconds w =
     (let w1 = w\<lparr>duration := duration w + seconds * Second\<rparr>
      in if state w1 = StateIdle \<and> 0 <s duration w1
         then go_run (NewTicker (w1\<lparr>state := StateCountdown\<rparr>))
         else w1)"

definition Reset :: "Daemon \<Rightarrow> Daemon" where
  "Reset w =
     (let w1 = w\<lparr>duration := initialDuration w\<rparr>;
          w2 = (if ticker w1 \<noteq> None then StopTicker w1 else w1)
      in if 0 <s duration w2
         then go_run (NewTicker (w2\<lparr>state := StateCountdown\<rparr>))
         else w2\<lparr>state := StateIdle\<rparr>)"

record TimerStatus =
  State :: State
  Duration :: Duration

definition GetStatus :: "Daemon \<Rightarrow> TimerStatus \<times> Daemon" where
  "GetStatus w = (\<lparr>State = state w, Duration = duration w\<rparr>, w)"

definition sendNotification :: "Daemon \<Rightarrow> Daemon" where
  "sendNotification w = w\<lparr>notified := Suc (notified w)\<rparr>"

text \<open>
  One iteration of the loop of \<open>run\<close> by goroutine \<open>g\<close>, which holds a tick of ticker
  \<open>k\<close>: the critical section between \<open>t.mu.Lock()\<close> and \<open>t.mu.Unlock()\<close>. The
  \<open>Stop\<close> is on the ticker \<open>t.ticker\<close> points to now; the loop goes on receiving from
  the channel it read when it started.
\<close>

definition run_body :: "nat \<Rightarrow> nat \<Rightarrow> Daemon \<Rightarrow> Daemon" where
  "run_body g k w =
     (let w1 = w\<lparr>duration := duration w - Second\<rparr>
      in if duration w1 \<le>s 0
         then (let w2 = StopTicker (w1\<lparr>state := StateIdle\<rparr>);
                   w3 = sendNotification (w2\<lparr>duration := 0\<rparr>)
               in w3\<lparr>runs := (runs w3)[g := Returned]\<rparr>)
         else w1\<lparr>runs := (runs w1)[g := Waiting k]\<rparr>)"

subsection \<open>Interleavings\<close>

text \<open>
  What can happen in the process, one atomic step each: the runtime puts a tick into
  the channel of a running ticker (a tick is dropped when one already waits); a new
  goroutine reaches \<open>for range t.ticker.C\<close> and reads \<open>t.ticker\<close>; a goroutine receives
  the waiting tick from its channel; a goroutine that holds a tick takes the lock and
  runs the loop body; a connection handler calls \<open>AddSeconds\<close>, \<open>Reset\<close> or
  \<open>GetStatus\<close> under the lock. An event that cannot happen in the state leaves it as
  it is, and nothing happens after a panic.
\<close>

datatype event =
    Tick nat
  | Enter nat
  | Receive nat
  | Iterate nat
  | CallAddSeconds go_int
  | CallReset
  | CallGetStatus

fun step :: "event \<Rightarrow> Daemon \<Rightarrow> Daemon" where
  "step (Tick k) w =
     (if \<not> panicked w \<and> k < length (tickers w) \<and> \<not> stopped (tickers w ! k)
      then w\<lparr>tickers := (tickers w)[k := (tickers w ! k)\<lparr>pending := True\<rparr>]\<rparr>
      else w)"
| "step (Enter g) w =
     (if \<not> panicked w \<and> g < length (runs w) \<and> runs w ! g = Spawned
      then (case ticker w of
              None \<Rightarrow> w\<lparr>panicked := True\<rparr>
            | Some k \<Rightarrow> w\<lparr>runs := (runs w)[g := Waiting k]\<rparr>)
      else w)"
| "step (Receive g) w =
     (if \<not> panicked w \<and> g < length (runs w)
      then (case runs w ! g of
              Waiting k \<Rightarrow>
                (if k < length (tickers w) \<and> pending (tickers w ! k)
                 then w\<lparr>tickers := (tickers w)[k := (tickers w ! k)\<lparr>pending := False\<rparr>],
                        runs := (runs w)[g := Woken k]\<rparr>
                 else w)
            | _ \<Rightarrow> w)
      else w)"
| "step (Iterate g) w =
     (if \<not> panicked w \<and> g < length (runs w)
      then (case runs w ! g of Woken k \<Rightarrow> run_body g k w | _ \<Rightarrow> w)
      else w)"
| "step (CallAddSeconds seconds) w = (if panicked w then w else AddSeconds seconds w)"
| "step CallReset w = (if panicked w then w else Reset w)"
| "step CallGetStatus w = (if panicked w then w else snd (GetStatus w))"

fun run_events :: "event list \<Rightarrow> Daemon \<Rightarrow> Daemon" where
  "run_events [] w = w"
| "run_events (e # es) w = run_events es (step e w)"

text \<open>
  A tick loop is active: \<open>t.ticker\<close> is a ticker that was not stopped, and some
  goroutine of \<open>run\<close> receives from its channel (or is about to).
\<close>

definition serves :: "nat \<Rightarrow> goroutine \<Rightarrow> bool" where
  "serves k g = (g = Spawned \<or> g = Waiting k \<or> g = Woken k)"

definition loop_active :: "Daemon \<Rightarrow> bool" where
  "loop_active w =
     (case ticker w of
        None \<Rightarrow> False
      | Some k \<Rightarrow> k < length (tickers w) \<and> \<not> stopped (tickers w ! k)
                  \<and> list_ex (serves k) (runs w))"

text \<open>The daemon started with an initial duration, after a list of events.\<close>

definition daemon_after :: "event list \<Rightarrow> Duration \<Rightarrow> Daemon" where
  "daemon_after es initial = run_events es (Start (NewTimer initial))"

text \<open>
  The states in which the phase and the ticker agree: no panic; with no ticker yet, no
  goroutine and phase idle; with a stopped ticker, phase idle; with a running ticker,
  phase countdown and a goroutine on its channel.
\<close>

definition consistent :: "Daemon \<Rightarrow> bool" where
  "consistent w =
     (\<not> panicked w \<and>
      (case ticker w of
         None \<Rightarrow> runs w = [] \<and> state w = StateIdle
       | Some k \<Rightarrow> k < length (tickers w) \<and>
           (if stopped (tickers w ! k) then state w = StateIdle
            else state w = StateCountdown \<and> list_ex (serves k) (runs w))))"

text \<open>
  Every call of \<open>AddSeconds\<close> in a list of events, run from a state, leaves a positive
  duration, or a duration of zero on an idle timer.
\<close>

fun adds_keep_time :: "event list \<Rightarrow> Daemon \<Rightarrow> bool" where
  "adds_keep_time [] w = True"
| "adds_keep_time (CallAddSeconds seconds # es) w =
     ((0 <s duration w + seconds * Second \<or>
       (state w = StateIdle \<and> duration w + seconds * Second = 0)) \<and>
      adds_keep_time es (step (CallAddSeconds seconds) w))"
| "adds_keep_time (e # es) w = adds_keep_time es (step e w)"

text \<open>
  The states in which the phase tells whether time remains, with an initial duration
  that is not negative.
\<close>

definition timed :: "Daemon \<Rightarrow> bool" where
  "timed w =
     (0 \<le>s initialDuration w \<and>
      (if state w = StateIdle then duration w = 0 else 0 <s duration w))"

text \<open>What the claimed invariant says of one state.\<close>

definition time_and_phase_agree :: "Daemon \<Rightarrow> bool" where
  "time_and_phase_agree w =
     (0 \<le>s duration w \<and>
      ((state w = StateCountdown) = (0 <s duration w \<and> loop_active w)) \<and>
      ((state w = StateIdle) = (duration w = 0 \<or> \<not> loop_active w)))"

subsection \<open>The wire schema\<close>

type_synonym RequestType = string

definition RequestTypeStatus :: RequestType where
  "RequestTypeStatus = ''status''"

definition RequestTypeAddSeconds :: RequestType where
  "RequestTypeAddSeconds = ''add_seconds''"

definition RequestTypeReset :: RequestType where
  "RequestTypeReset = ''reset''"

record Request =
  Type :: RequestType
  Payload :: string

record Response =
  Success :: bool
  Message :: string
  Status :: TimerStatus

text \<open>Go's zero values of \<open>TimerStatus\<close>, \<open>Request\<close> and \<open>Response\<close>.\<close>

definition zero_TimerStatus :: TimerStatus where
  "zero_TimerStatus = \<lparr>State = [], Duration = 0\<rparr>"

definition zero_Request :: Request where
  "zero_Request = \<lparr>Type = [], Payload = []\<rparr>"

definition zero_Response :: Response where
  "zero_Response = \<lparr>Success = False, Message = [], Status = zero_TimerStatus\<rparr>"

subsection \<open>Library functions the handlers call\<close>

text \<open>
  \<open>strconv.Atoi\<close> (standard library): an optional sign, then one or more decimal
  digits and nothing else; a value outside \<open>int\<close> is an error too.
\<close>

definition is_digit :: "char \<Rightarrow> bool" where
  "is_digit c = (48 \<le> (of_char c :: nat) \<and> (of_char c :: nat) \<le> 57)"

definition digits_value :: "string \<Rightarrow> int" where
  "digits_value ds = foldl (\<lambda>n c. 10 * n + (of_char c - 48)) 0 ds"

definition Atoi_digits :: "bool \<Rightarrow> string \<Rightarrow> go_int option" where
  "Atoi_digits neg ds =
     (if ds = [] \<or> \<not> list_all is_digit ds then None
      else if neg
        then (if digits_value ds \<le> 9223372036854775808
              then Some (- of_int (digits_value ds)) else None)
        else (if digits_value ds < 9223372036854775808
              then Some (of_int (digits_value ds)) else None))"

fun Atoi :: "string \<Rightarrow> go_int option" where
  "Atoi [] = None"
| "Atoi (c # cs) =
     (if c = CHR ''-'' then Atoi_digits True cs
      else if c = CHR ''+'' then Atoi_digits False cs
      else Atoi_digits False (c # cs))"

text \<open>The verbs \<open>%d\<close> and \<open>%02d\<close> of \<open>fmt\<close>: decimal, and decimal padded with zeros
  to a width of two, the sign counted in the width.\<close>

definition digit_char :: "nat \<Rightarrow> char" where
  "digit_char n = ''0123456789'' ! n"

fun dec :: "nat \<Rightarrow> string" where
  "dec n = (if n < 10 then [digit_char n] else dec (n div 10) @ [digit_char (n mod 10)])"

declare dec.simps [simp del]

definition zero_pad :: "nat \<Rightarrow> string \<Rightarrow> string" where
  "zero_pad width ds = replicate (width - length ds) (CHR ''0'') @ ds"

definition fmt_d :: "int \<Rightarrow> string" where
  "fmt_d i = (if i < 0 then ''-'' @ dec (nat (- i)) else dec (nat i))"

definition fmt_02d :: "int \<Rightarrow> string" where
  "fmt_02d i = (if i < 0 then ''-'' @ zero_pad 1 (dec (nat (- i))) else zero_pad 2 (dec (nat i)))"

subsection \<open>The connection handler\<close>

type_synonym error = string

text \<open>
  \<open>handleConnection\<close>, given what \<open>decoder.Decode(&req)\<close> returned (an error, or the
  request it filled in) and the daemon; it returns the response handed to
  \<open>encoder.Encode\<close> and the daemon after the call.
\<close>

definition handleConnection :: "error + Request \<Rightarrow> Daemon \<Rightarrow> Response \<times> Daemon" where
  "handleConnection decoded timer =
     (case decoded of
        Inl err \<Rightarrow> (zero_Response\<lparr>Success := False, Message := ''Invalid request format.''\<rparr>, timer)
      | Inr req \<Rightarrow>
          if Type req = RequestTypeStatus then
            (let (status, timer') = GetStatus timer
             in (zero_Response\<lparr>Success := True, Status := status\<rparr>, timer'))
          else if Type req = RequestTypeAddSeconds then
            (case Atoi (Payload req) of
               None \<Rightarrow> (zero_Response\<lparr>Success := False, Message := ''Invalid seconds value.''\<rparr>, timer)
             | Some seconds \<Rightarrow>
                 (zero_Response\<lparr>Success := True,
                    Message := ''Added '' @ fmt_d (sint seconds) @ '' seconds.''\<rparr>,
                  AddSeconds seconds timer))
          else if Type req = RequestTypeReset then
            (zero_Response\<lparr>Success := True, Message := ''Timer reset.''\<rparr>, Reset timer)
          else (zero_Response\<lparr>Success := False, Message := ''Unknown request type.''\<rparr>, timer))"

subsection \<open>Startup\<close>




subsection \<open>The client\<close>

text \<open>
  \<open>float64\<close> arithmetic: the exact result of an operation, a rational number, rounded to
  the nearest number with a significand of 53 bits, ties to the even significand. The
  exponent of \<open>x\<close> is that of the binade \<open>2 ^ e \<le> \<bar>x\<bar> < 2 ^ (e + 1)\<close>, and not less than
  that of the least normal number. (No operation on quotients of two \<open>int64\<close> values
  overflows.)
\<close>

definition half_even :: "rat \<Rightarrow> int" where
  "half_even y =
     (let f = \<lfloor>y\<rfloor>; r = y - of_int f
      in if r < 1 / 2 then f else if 1 / 2 < r then f + 1 else if even f then f else f + 1)"

definition normal_scale :: rat where
  "normal_scale = 2 ^ 1022"

definition exponent64 :: "rat \<Rightarrow> int" where
  "exponent64 x = max (- 1022) (bitlen \<lfloor>\<bar>x\<bar> * normal_scale\<rfloor> - 1023)"

definition round64 :: "rat \<Rightarrow> rat" where
  "round64 x =
     (let u = 2 powi (exponent64 x - 52)
      in sgn x * of_int (half_even (\<bar>x\<bar> / u)) * u)"

text \<open>The conversion \<open>int(f)\<close> of a \<open>float64\<close> discards the fraction.\<close>

definition trunc :: "rat \<Rightarrow> int" where
  "trunc x = (if 0 \<le> x then \<lfloor>x\<rfloor> else \<lceil>x\<rceil>)"

text \<open>
  \<open>Duration.Seconds\<close> and \<open>Duration.Minutes\<close> of package \<open>time\<close> (standard library):
  \<^verbatim>\<open>sec := d / Second; nsec := d % Second; return float64(sec) + float64(nsec)/1e9\<close>
  and
  \<^verbatim>\<open>min := d / Minute; nsec := d % Minute; return float64(min) + float64(nsec)/(60*1e9)\<close>,
  with the conversions, the division and the addition each rounded.
\<close>

definition Seconds :: "Duration \<Rightarrow> rat" where
  "Seconds d =
     (let sec = sint d sdiv 1000000000; nsec = sint d smod 1000000000
      in round64 (round64 (of_int sec) + round64 (round64 (of_int nsec) / 1000000000)))"

definition Minutes :: "Duration \<Rightarrow> rat" where
  "Minutes d =
     (let min = sint d sdiv 60000000000; nsec = sint d smod 60000000000
      in round64 (round64 (of_int min) + round64 (round64 (of_int nsec) / 60000000000)))"

text \<open>\<open>int(d.Minutes())\<close> and \<open>int(d.Seconds())\<close>\<close>

definition Minutes_int :: "Duration \<Rightarrow> int" where
  "Minutes_int d = trunc (Minutes d)"

definition Seconds_int :: "Duration \<Rightarrow> int" where
  "Seconds_int d = trunc (Seconds d)"

text \<open>The quotient and the fraction added and rounded, as both functions do.\<close>

definition whole64 :: "int \<Rightarrow> int \<Rightarrow> rat" where
  "whole64 a c =
     round64 (round64 (of_int (a sdiv c)) + round64 (round64 (of_int (a smod c)) / of_int c))"

text \<open>The request built from \<open>os.Args\<close>, or the exit status and the line printed.\<close>

definition ctl_request :: "string list \<Rightarrow> (nat \<times> string list) + Request" where
  "ctl_request args =
     (if length args > 1 then
        (if args ! 1 = ''-a'' then
           (if length args < 3 then Inl (1, [''Usage: pomidoras_client -a <seconds>''])
            else Inr (zero_Request\<lparr>Type := RequestTypeAddSeconds, Payload := args ! 2\<rparr>))
         else if args ! 1 = ''-r'' then Inr (zero_Request\<lparr>Type := RequestTypeReset\<rparr>)
         else Inl (1, [''Invalid argument.'']))
      else Inr (zero_Request\<lparr>Type := RequestTypeStatus\<rparr>))"

text \<open>What the client prints for a response with \<open>Success\<close> set (the end of \<open>main\<close>).\<close>

definition ctl_print :: "Request \<Rightarrow> Response \<Rightarrow> string list" where
  "ctl_print req resp =
     (if Type req = RequestTypeStatus then
        (if State (Status resp) = StateCountdown then
           (let minutes = Minutes_int (Duration (Status resp));
                seconds = Seconds_int (Duration (Status resp)) smod 60
            in [fmt_02d minutes @ '':'' @ fmt_02d seconds])
         else [''Idle''])
      else [Message resp])"

text \<open>
  \<open>main\<close> of the client, given \<open>os.Args\<close> and what \<open>net.Dial\<close>, \<open>encoder.Encode\<close> and
  \<open>decoder.Decode\<close> return: the exit status and the lines printed.
\<close>

definition main_ctl ::
  "string list \<Rightarrow> error + unit \<Rightarrow> error + unit \<Rightarrow> error + Response \<Rightarrow> nat \<times> string list" where
  "main_ctl args dialed sent received =
     (case dialed of
        Inl err \<Rightarrow> (1, [''Error connecting to server: '' @ err])
      | Inr _ \<Rightarrow>
          (case ctl_request args of
             Inl usage \<Rightarrow> usage
           | Inr req \<Rightarrow>
               (case sent of
                  Inl err \<Rightarrow> (1, [''Error sending request: '' @ err])
                | Inr _ \<Rightarrow>
                    (case received of
                       Inl err \<Rightarrow> (1, [''Error receiving response: '' @ err])
                     | Inr resp \<Rightarrow>
                         if \<not> Success resp then (1, [''Server error: '' @ Message resp])
                         else (0, ctl_print req resp)))))"

subsection \<open>The wire format\<close>

text \<open>
  Both programs exchange JSON values through \<open>encoding/json\<close> (standard library). The
  model stops at the JSON value: what the encoder writes for a struct with these field
  tags, and what the decoder stores into one. A number is either an integer literal or a
  literal with a fraction or an exponent, which no integer field accepts.
\<close>

datatype json =
    JNull
  | JBool bool
  | JNumber int
  | JFraction
  | JString string
  | JArray "json list"
  | JObject "(string \<times> json) list"

text \<open>
  A Go string is any sequence of bytes; encoder and decoder both turn it into
  well-formed UTF-8, replacing each byte that does not start a well-formed encoding by
  the replacement character U+FFFD. \<open>rune_size\<close> is the length of the well-formed
  encoding at the head of a string, or 0 when there is none.
\<close>

definition cont_byte :: "char \<Rightarrow> bool" where
  "cont_byte c = (128 \<le> (of_char c :: nat) \<and> (of_char c :: nat) \<le> 191)"

definition second_of_three :: "nat \<Rightarrow> char \<Rightarrow> bool" where
  "second_of_three b c =
     ((if b = 224 then 160 else 128) \<le> (of_char c :: nat) \<and>
      (of_char c :: nat) \<le> (if b = 237 then 159 else 191))"

definition second_of_four :: "nat \<Rightarrow> char \<Rightarrow> bool" where
  "second_of_four b c =
     ((if b = 240 then 144 else 128) \<le> (of_char c :: nat) \<and>
      (of_char c :: nat) \<le> (if b = 244 then 143 else 191))"

fun rune_size :: "string \<Rightarrow> nat" where
  "rune_size [] = 0"
| "rune_size (c # cs) =
     (let b = (of_char c :: nat)
      in if b < 128 then 1
         else if 194 \<le> b \<and> b \<le> 223 then
           (case cs of c1 # _ \<Rightarrow> if cont_byte c1 then 2 else 0 | _ \<Rightarrow> 0)
         else if 224 \<le> b \<and> b \<le> 239 then
           (case cs of
              c1 # c2 # _ \<Rightarrow> if second_of_three b c1 \<and> cont_byte c2 then 3 else 0
            | _ \<Rightarrow> 0)
         else if 240 \<le> b \<and> b \<le> 244 then
           (case cs of
              c1 # c2 # c3 # _ \<Rightarrow>
                if second_of_four b c1 \<and> cont_byte c2 \<and> cont_byte c3 then 4 else 0
            | _ \<Rightarrow> 0)
         else 0)"

definition replacement :: string where
  "replacement = [CHR 0xEF, CHR 0xBF, CHR 0xBD]"

text \<open>
  \<open>coerce_from n s\<close> copies the \<open>n\<close> bytes left of the encoding it is in, then goes on
  encoding by encoding; \<open>valid_from n s\<close> says that it meets no byte to replace.
\<close>

fun coerce_from :: "nat \<Rightarrow> string \<Rightarrow> string" where
  "coerce_from n [] = []"
| "coerce_from n (c # cs) =
     (if 0 < n then c # coerce_from (n - 1) cs
      else if rune_size (c # cs) = 0 then replacement @ coerce_from 0 cs
      else c # coerce_from (rune_size (c # cs) - 1) cs)"

fun valid_from :: "nat \<Rightarrow> string \<Rightarrow> bool" where
  "valid_from n [] = True"
| "valid_from n (c # cs) =
     (if 0 < n then valid_from (n - 1) cs
      else rune_size (c # cs) \<noteq> 0 \<and> valid_from (rune_size (c # cs) - 1) cs)"

definition coerce_utf8 :: "string \<Rightarrow> string" where
  "coerce_utf8 s = coerce_from 0 s"

definition utf8_valid :: "string \<Rightarrow> bool" where
  "utf8_valid s = valid_from 0 s"

text \<open>Encoding: the fields in order under their tags; \<open>omitempty\<close> drops an empty
  string, and has no effect on a struct.\<close>

definition marshal_TimerStatus :: "TimerStatus \<Rightarrow> json" where
  "marshal_TimerStatus s =
     JObject [(''state'', JString (coerce_utf8 (State s))),
              (''duration'', JNumber (sint (Duration s)))]"

definition marshal_Request :: "Request \<Rightarrow> json" where
  "marshal_Request r =
     JObject ([(''type'', JString (coerce_utf8 (Type r)))]
              @ (if Payload r = [] then []
                 else [(''payload'', JString (coerce_utf8 (Payload r)))]))"

definition marshal_Response :: "Response \<Rightarrow> json" where
  "marshal_Response r =
     JObject ([(''success'', JBool (Success r))]
              @ (if Message r = [] then []
                 else [(''message'', JString (coerce_utf8 (Message r)))])
              @ [(''status'', marshal_TimerStatus (Status r))])"

text \<open>
  Decoding stores into an existing value: a member whose key is a field's tag under
  Unicode case folding is stored into that field, \<open>null\<close> stores nothing, a value of
  another kind is an error, an unknown key is skipped, and a later member overwrites an
  earlier one. Folding a key maps the letters A to Z to a to z, and the two other
  characters that fold to a letter: U+017F (long s, bytes C5 BF) to s and U+212A (the
  Kelvin sign, bytes E2 84 AA) to k.
\<close>

definition lower :: "char \<Rightarrow> char" where
  "lower c =
     (case map_of (zip ''ABCDEFGHIJKLMNOPQRSTUVWXYZ'' ''abcdefghijklmnopqrstuvwxyz'') c of
        Some l \<Rightarrow> l
      | None \<Rightarrow> c)"

fun fold_key :: "string \<Rightarrow> string" where
  "fold_key (a # b # c # cs) =
     (if a = CHR 0xE2 \<and> b = CHR 0x84 \<and> c = CHR 0xAA then CHR ''k'' # fold_key cs
      else if a = CHR 0xC5 \<and> b = CHR 0xBF then CHR ''s'' # fold_key (c # cs)
      else lower a # fold_key (b # c # cs))"
| "fold_key [a, b] =
     (if a = CHR 0xC5 \<and> b = CHR 0xBF then [CHR ''s''] else lower a # fold_key [b])"
| "fold_key [a] = [lower a]"
| "fold_key [] = []"

definition key_is :: "string \<Rightarrow> string \<Rightarrow> bool" where
  "key_is tag key = (fold_key key = tag)"

definition type_error :: error where
  "type_error = ''json: cannot unmarshal''"

fun store_string :: "json \<Rightarrow> string \<Rightarrow> error + string" where
  "store_string (JString s) old = Inr (coerce_utf8 s)"
| "store_string JNull old = Inr old"
| "store_string _ old = Inl type_error"

fun store_bool :: "json \<Rightarrow> bool \<Rightarrow> error + bool" where
  "store_bool (JBool b) old = Inr b"
| "store_bool JNull old = Inr old"
| "store_bool _ old = Inl type_error"

fun store_int64 :: "json \<Rightarrow> 64 word \<Rightarrow> error + 64 word" where
  "store_int64 (JNumber n) old =
     (if - 9223372036854775808 \<le> n \<and> n < 9223372036854775808 then Inr (of_int n)
      else Inl type_error)"
| "store_int64 JNull old = Inr old"
| "store_int64 _ old = Inl type_error"

fun fill_TimerStatus :: "(string \<times> json) list \<Rightarrow> TimerStatus \<Rightarrow> error + TimerStatus" where
  "fill_TimerStatus [] s = Inr s"
| "fill_TimerStatus ((key, v) # members) s =
     (if key_is ''state'' key then
        (case store_string v (State s) of
           Inl err \<Rightarrow> Inl err | Inr x \<Rightarrow> fill_TimerStatus members (s\<lparr>State := x\<rparr>))
      else if key_is ''duration'' key then
        (case store_int64 v (Duration s) of
           Inl err \<Rightarrow> Inl err | Inr x \<Rightarrow> fill_TimerStatus members (s\<lparr>Duration := x\<rparr>))
      else fill_TimerStatus members s)"

fun store_TimerStatus :: "json \<Rightarrow> TimerStatus \<Rightarrow> error + TimerStatus" where
  "store_TimerStatus (JObject members) old = fill_TimerStatus members old"
| "store_TimerStatus JNull old = Inr old"
| "store_TimerStatus _ old = Inl type_error"

fun fill_Request :: "(string \<times> json) list \<Rightarrow> Request \<Rightarrow> error + Request" where
  "fill_Request [] r = Inr r"
| "fill_Request ((key, v) # members) r =
     (if key_is ''type'' key then
        (case store_string v (Type r) of
           Inl err \<Rightarrow> Inl err | Inr x \<Rightarrow> fill_Request members (r\<lparr>Type := x\<rparr>))
      else if key_is ''payload'' key then
        (case store_string v (Payload r) of
           Inl err \<Rightarrow> Inl err | Inr x \<Rightarrow> fill_Request members (r\<lparr>Payload := x\<rparr>))
      else fill_Request members r)"

fun fill_Response :: "(string \<times> json) list \<Rightarrow> Response \<Rightarrow> error + Response" where
  "fill_Response [] r = Inr r"
| "fill_Response ((key, v) # members) r =
     (if key_is ''success'' key then
        (case store_bool v (Success r) of
           Inl err \<Rightarrow> Inl err | Inr x \<Rightarrow> fill_Response members (r\<lparr>Success := x\<rparr>))
      else if key_is ''message'' key then
        (case store_string v (Message r) of
           Inl err \<Rightarrow> Inl err | Inr x \<Rightarrow> fill_Response members (r\<lparr>Message := x\<rparr>))
      else if key_is ''status'' key then
        (case store_TimerStatus v (Status r) of
           Inl err \<Rightarrow> Inl err | Inr x \<Rightarrow> fill_Response members (r\<lparr>Status := x\<rparr>))
      else fill_Response members r)"

text \<open>\<open>var req Request; decoder.Decode(&req)\<close> and the same for a \<open>Response\<close>, on a
  JSON value.\<close>

fun unmarshal_Request :: "json \<Rightarrow> error + Request" where
  "unmarshal_Request (JObject members) = fill_Request members zero_Request"
| "unmarshal_Request JNull = Inr zero_Request"
| "unmarshal_Request _ = Inl type_error"

fun unmarshal_Response :: "json \<Rightarrow> error + Response" where
  "unmarshal_Response (JObject members) = fill_Response members zero_Response"
| "unmarshal_Response JNull = Inr zero_Response"
| "unmarshal_Response _ = Inl type_error"

section \<open>Properties\<close>

lemmas timer_defs = daemon_after_def Start_def NewTimer_def NewTicker_def StopTicker_def
  go_run_def AddSeconds_def Reset_def run_body_def sendNotification_def GetStatus_def Second_def
  StateCountdown_def StateIdle_def word_sless_alt word_sle_eq loop_active_def serves_def Let_def

subsection \<open>Facts about words and lists\<close>

lemma states_differ: "StateCountdown \<noteq> StateIdle"
  by (simp add: StateCountdown_def StateIdle_def)

lemma sint_Second: "sint Second = 1000000000"
  by (simp add: Second_def)

lemma sint_sub_exact:
  fixes a b :: "64 word"
  assumes "- (2 ^ 63) \<le> sint a - sint b" and "sint a - sint b < 2 ^ 63"
  shows "sint (a - b) = sint a - sint b"
  using assms by (simp add: sint_word_ariths signed_take_bit_int_eq_self)

lemma sint_eq_0: "(sint (d :: 64 word) = 0) = (d = 0)"
  by (simp add: signed_eq_0_iff)

lemma list_ex_update_keep:
  assumes "list_ex P rs" and "g < length rs" and "P (rs ! g) \<Longrightarrow> P x"
  shows "list_ex P (rs[g := x])"
proof -
  from assms(1) obtain i where i: "i < length rs" "P (rs ! i)"
    unfolding list_ex_length by blast
  show ?thesis
  proof (cases "i = g")
    case True
    with i assms have "g < length (rs[g := x]) \<and> P (rs[g := x] ! g)" by simp
    then show ?thesis unfolding list_ex_length by blast
  next
    case False
    with i have "i < length (rs[g := x]) \<and> P (rs[g := x] ! i)" by simp
    then show ?thesis unfolding list_ex_length by blast
  qed
qed

subsection \<open>The phase and the ticker agree in every reachable state\<close>

lemma consistent_Start: "consistent (Start (NewTimer d))"
  by (simp add: consistent_def Start_def NewTimer_def NewTicker_def go_run_def serves_def)

lemma consistent_AddSeconds: "consistent w \<Longrightarrow> consistent (AddSeconds n w)"
  using states_differ
  by (auto simp: consistent_def AddSeconds_def Let_def NewTicker_def go_run_def serves_def
        nth_append split: option.splits if_splits)

lemma consistent_Reset: "consistent w \<Longrightarrow> consistent (Reset w)"
  using states_differ
  by (auto simp: consistent_def Reset_def Let_def NewTicker_def go_run_def serves_def
        nth_append StopTicker_def split: option.splits if_splits)

lemma consistent_Tick: "consistent w \<Longrightarrow> consistent (step (Tick k) w)"
  by (auto simp: consistent_def nth_list_update split: option.splits if_splits)

lemma consistent_Enter: "consistent w \<Longrightarrow> consistent (step (Enter g) w)"
  by (auto simp: consistent_def serves_def split: option.splits if_splits
      intro!: list_ex_update_keep)

lemma consistent_Receive: "consistent w \<Longrightarrow> consistent (step (Receive g) w)"
  by (auto simp: consistent_def nth_list_update serves_def
      split: option.splits if_splits goroutine.splits intro!: list_ex_update_keep)

lemma consistent_run_body:
  "consistent w \<Longrightarrow> g < length (runs w) \<Longrightarrow> runs w ! g = Woken k \<Longrightarrow>
   consistent (run_body g k w)"
  by (auto simp: consistent_def run_body_def Let_def StopTicker_def sendNotification_def
        nth_list_update serves_def
      split: option.splits if_splits intro!: list_ex_update_keep)

lemma consistent_step:
  assumes "consistent w"
  shows "consistent (step e w)"
proof (cases e)
  case (Tick k)
  then show ?thesis using consistent_Tick [OF assms] by blast
next
  case (Enter g)
  then show ?thesis using consistent_Enter [OF assms] by blast
next
  case (Receive g)
  then show ?thesis using consistent_Receive [OF assms] by blast
next
  case (Iterate g)
  then show ?thesis using assms
    by (auto simp: consistent_run_body split: goroutine.splits)
next
  case (CallAddSeconds n)
  then show ?thesis using consistent_AddSeconds [OF assms] assms by simp
next
  case CallReset
  then show ?thesis using consistent_Reset [OF assms] assms by simp
next
  case CallGetStatus
  then show ?thesis using assms by (simp add: GetStatus_def)
qed

lemma consistent_run_events: "consistent w \<Longrightarrow> consistent (run_events es w)"
  by (induction es arbitrary: w) (simp_all add: consistent_step)

lemma consistent_phase:
  assumes "consistent w"
  shows "\<not> panicked w" and "state w = StateCountdown \<or> state w = StateIdle"
    and "(state w = StateCountdown) = loop_active w"
  using assms states_differ
  by (auto simp: consistent_def loop_active_def split: option.splits if_splits)

subsection \<open>Durations that stay in step with the phase\<close>

lemma timed_fields:
  "timed (w\<lparr>tickers := ts\<rparr>) = timed w"
  "timed (w\<lparr>runs := rs\<rparr>) = timed w"
  "timed (w\<lparr>panicked := p\<rparr>) = timed w"
  by (simp_all add: timed_def)

lemma timed_Start: "0 \<le>s initial \<Longrightarrow> timed (Start (NewTimer initial))"
  using states_differ
  by (auto simp: timed_def Start_def NewTimer_def NewTicker_def go_run_def word_sle_eq
      word_sless_alt sint_eq_0 [symmetric])

lemma timed_Reset: "timed w \<Longrightarrow> timed (Reset w)"
  using states_differ
  by (auto simp: timed_def Reset_def Let_def NewTicker_def go_run_def StopTicker_def
      word_sle_eq word_sless_alt sint_eq_0 [symmetric] split: if_splits option.splits)

lemma timed_AddSeconds:
  assumes "timed w"
    and "0 <s duration w + n * Second \<or> (state w = StateIdle \<and> duration w + n * Second = 0)"
  shows "timed (AddSeconds n w)"
  using assms states_differ
  by (auto simp: timed_def AddSeconds_def Let_def NewTicker_def go_run_def split: if_splits)

lemma timed_run_body:
  assumes "timed w"
  shows "timed (run_body g k w)"
proof -
  from assms have b: "0 \<le> sint (duration w)"
    by (auto simp: timed_def word_sless_alt split: if_splits)
  have lt: "sint (duration w) < 2 ^ 63" using sint_lt [of "duration w"] by simp
  have s: "sint (duration w - Second) = sint (duration w) - 1000000000"
    using b lt by (subst sint_sub_exact) (simp_all add: sint_Second)
  show ?thesis
    using assms s states_differ
    by (auto simp: timed_def run_body_def Let_def StopTicker_def sendNotification_def
        word_sle_eq word_sless_alt split: if_splits option.splits)
qed

lemma timed_step_other:
  assumes "timed w" and "\<And>n. e \<noteq> CallAddSeconds n"
  shows "timed (step e w)"
proof (cases e)
  case (CallAddSeconds n)
  then show ?thesis using assms(2) [of n] by simp
next
  case (Iterate g)
  then show ?thesis using assms(1)
    by (auto simp: timed_run_body split: goroutine.splits)
next
  case CallReset
  then show ?thesis using assms(1) by (simp add: timed_Reset)
qed (use assms(1) in \<open>auto simp: timed_fields GetStatus_def split: option.splits goroutine.splits\<close>)

lemma timed_run_events:
  "timed w \<Longrightarrow> \<not> panicked w \<Longrightarrow> consistent w \<Longrightarrow> adds_keep_time es w \<Longrightarrow> timed (run_events es w)"
proof (induction es arbitrary: w)
  case Nil
  then show ?case by simp
next
  case (Cons e es)
  have c: "consistent (step e w)" using Cons.prems(3) by (rule consistent_step)
  then have p: "\<not> panicked (step e w)" by (simp add: consistent_def)
  show ?case
  proof (cases "\<exists>n. e = CallAddSeconds n")
    case True
    then obtain n where e: "e = CallAddSeconds n" by blast
    with Cons.prems have "timed (step e w)" "adds_keep_time es (step e w)"
      by (simp_all add: timed_AddSeconds)
    then show ?thesis using Cons.IH [OF _ p c] by simp
  next
    case False
    then have o: "\<And>n. e \<noteq> CallAddSeconds n" by blast
    then have "adds_keep_time es (step e w)" using Cons.prems(4) by (cases e) simp_all
    moreover have "timed (step e w)" using Cons.prems(1) o by (rule timed_step_other)
    ultimately show ?thesis using Cons.IH [OF _ p c] by simp
  qed
qed

lemma adds_keep_time_necessary:
  assumes "consistent w"
    and "\<forall>k \<le> length es. time_and_phase_agree (run_events (take k es) w)"
  shows "adds_keep_time es w"
  using assms
proof (induction es arbitrary: w)
  case Nil
  then show ?case by simp
next
  case (Cons e es)
  have c: "consistent (step e w)" using Cons.prems(1) by (rule consistent_step)
  have np: "\<not> panicked w" using Cons.prems(1) by (simp add: consistent_def)
  have rest: "\<forall>k \<le> length es. time_and_phase_agree (run_events (take k es) (step e w))"
  proof (intro allI impI)
    fix k assume "k \<le> length es"
    then have "Suc k \<le> length (e # es)" by simp
    with Cons.prems(2) have "time_and_phase_agree (run_events (take (Suc k) (e # es)) w)"
      by blast
    then show "time_and_phase_agree (run_events (take k es) (step e w))" by simp
  qed
  have tail: "adds_keep_time es (step e w)" using c rest by (rule Cons.IH)
  from rest have one: "time_and_phase_agree (step e w)" by (auto dest: spec [of _ 0])
  show ?case
  proof (cases e)
    case (CallAddSeconds n)
    have a: "time_and_phase_agree (AddSeconds n w)" using one np CallAddSeconds by simp
    have d: "duration (AddSeconds n w) = duration w + n * Second"
      and st: "state (AddSeconds n w) =
        (if state w = StateIdle \<and> 0 <s duration w + n * Second then StateCountdown else state w)"
      by (simp_all add: AddSeconds_def Let_def NewTicker_def go_run_def)
    have "0 <s duration w + n * Second \<or>
          (state w = StateIdle \<and> duration w + n * Second = 0)"
    proof (cases "duration w + n * Second = 0")
      case True
      with a d have "state (AddSeconds n w) = StateIdle"
        by (simp add: time_and_phase_agree_def)
      with True st show ?thesis by (simp split: if_splits)
    next
      case False
      from a d have "0 \<le>s duration w + n * Second" by (simp add: time_and_phase_agree_def)
      with False show ?thesis
        using sint_eq_0 [of "duration w + n * Second"]
        by (auto simp: word_sle_eq word_sless_alt)
    qed
    with tail CallAddSeconds show ?thesis by simp
  qed (use tail in simp_all)
qed

subsection \<open>Facts about the wire format\<close>

lemma sint64_range:
  "- 9223372036854775808 \<le> sint (d :: 64 word) \<and> sint d < 9223372036854775808"
  using sint_ge [of d] sint_lt [of d] by simp

lemma coerce_from_valid: "valid_from n s \<Longrightarrow> coerce_from n s = s"
  by (induction s arbitrary: n) (auto simp del: rune_size.simps split: if_splits)

lemma coerce_utf8_valid: "utf8_valid s \<Longrightarrow> coerce_utf8 s = s"
  by (simp add: utf8_valid_def coerce_utf8_def coerce_from_valid)

lemma tags_differ:
  "\<not> key_is ''message'' ''success''" "\<not> key_is ''status'' ''success''"
  "\<not> key_is ''success'' ''message''" "\<not> key_is ''status'' ''message''"
  "\<not> key_is ''success'' ''status''" "\<not> key_is ''message'' ''status''"
  "key_is ''success'' ''success''" "key_is ''message'' ''message''" "key_is ''status'' ''status''"
  "key_is ''state'' ''state''" "key_is ''duration'' ''duration''"
  "\<not> key_is ''state'' ''duration''"
  "key_is ''type'' ''type''" "key_is ''payload'' ''payload''" "\<not> key_is ''type'' ''payload''"
  by (simp_all add: key_is_def lower_def)

lemma store_marshal_TimerStatus:
  "utf8_valid (State s) \<Longrightarrow> store_TimerStatus (marshal_TimerStatus s) old = Inr s"
  by (cases s) (simp add: marshal_TimerStatus_def tags_differ sint64_range coerce_utf8_valid)

text \<open>A byte that is not UTF-8 comes back as the replacement character.\<close>

lemma invalid_utf8_is_replaced:
  "\<not> utf8_valid [CHR 0xFF] \<and>
   unmarshal_Request (marshal_Request \<lparr>Type = RequestTypeAddSeconds, Payload = [CHR 0xFF]\<rparr>) =
     Inr \<lparr>Type = RequestTypeAddSeconds, Payload = [CHR 0xEF, CHR 0xBF, CHR 0xBD]\<rparr>"
  by (simp add: utf8_valid_def coerce_utf8_def marshal_Request_def RequestTypeAddSeconds_def
      tags_differ zero_Request_def replacement_def cont_byte_def second_of_three_def)

text \<open>A key with the long s in place of an s is the same key.\<close>

lemma long_s_key_is_folded:
  "unmarshal_Request (JObject [([CHR 0xC5, CHR 0xBF, CHR ''t'', CHR ''a'', CHR ''t'', CHR ''u'',
       CHR ''s''], JNull), ([CHR ''T'', CHR ''Y'', CHR ''P'', CHR ''E''], JString ''reset'')]) =
     Inr \<lparr>Type = ''reset'', Payload = []\<rparr>"
  by (simp add: key_is_def lower_def zero_Request_def coerce_utf8_def)

subsection \<open>Facts about \<open>float64\<close> rounding\<close>

lemma half_even_upper: "of_int (half_even y) \<le> y + 1 / 2"
proof -
  have f: "of_int \<lfloor>y\<rfloor> \<le> y" by simp
  show ?thesis
  proof (cases "y - of_int \<lfloor>y\<rfloor> < 1 / 2")
    case True
    then have "half_even y = \<lfloor>y\<rfloor>" by (simp add: half_even_def Let_def)
    then show ?thesis using of_int_floor_le [of y] by linarith
  next
    case False
    then have "half_even y \<le> \<lfloor>y\<rfloor> + 1" by (simp add: half_even_def Let_def)
    then have "(of_int (half_even y) :: rat) \<le> of_int (\<lfloor>y\<rfloor> + 1)" by (simp only: of_int_le_iff)
    with False show ?thesis by simp
  qed
qed

lemma half_even_ge_int: "of_int m \<le> y \<Longrightarrow> m \<le> half_even y"
proof -
  assume "of_int m \<le> y"
  then have "m \<le> \<lfloor>y\<rfloor>" by (simp add: le_floor_iff)
  then show ?thesis by (auto simp: half_even_def Let_def)
qed

lemma half_even_le_int: "y \<le> of_int m \<Longrightarrow> half_even y \<le> m"
proof (cases "y = of_int m")
  case True
  then show ?thesis by (simp add: half_even_def)
next
  case False
  assume "y \<le> of_int m"
  with False have "y < of_int m" by simp
  then have "\<lfloor>y\<rfloor> < m" by (simp add: floor_less_iff)
  then show ?thesis by (auto simp: half_even_def Let_def)
qed

lemma exponent64_abs: "exponent64 (- x) = exponent64 x"
  by (simp add: exponent64_def)

lemma round64_minus: "round64 (- x) = - round64 x"
  by (simp add: round64_def exponent64_abs Let_def)

lemma round64_0: "round64 0 = 0"
  by (simp add: round64_def)

lemma normal_scale_pos: "0 < normal_scale"
  by (simp add: normal_scale_def)

lemma powi_normal_scale:
  assumes "- 1022 \<le> k"
  shows "2 powi k * normal_scale = 2 ^ nat (k + 1022)"
proof -
  have "normal_scale = 2 powi 1022" unfolding normal_scale_def by (rule power_int_numeral [symmetric])
  then have "2 powi k * normal_scale = 2 powi k * 2 powi 1022" by (rule arg_cong)
  also have "\<dots> = 2 powi (k + 1022)" by (rule power_int_add [symmetric]) simp
  also have "\<dots> = 2 ^ nat (k + 1022)" using assms by (intro power_int_nonneg_exp) simp
  finally show ?thesis .
qed

lemma exponent64_upper:
  assumes "\<bar>x\<bar> < 2 powi k" and "- 1021 \<le> k"
  shows "exponent64 x \<le> k - 1"
proof -
  have "\<bar>x\<bar> * normal_scale < 2 powi k * normal_scale"
    using assms(1) normal_scale_pos by (rule mult_strict_right_mono)
  also have "\<dots> = 2 ^ nat (k + 1022)" using assms(2) by (intro powi_normal_scale) simp
  also have "\<dots> = of_int (2 ^ nat (k + 1022))" by simp
  finally have "\<lfloor>\<bar>x\<bar> * normal_scale\<rfloor> < 2 ^ nat (k + 1022)" by (simp only: floor_less_iff)
  then have "bitlen \<lfloor>\<bar>x\<bar> * normal_scale\<rfloor> \<le> k + 1022"
    using assms(2) by (simp add: bitlen_le_iff_power)
  then show ?thesis using assms(2) by (simp add: exponent64_def)
qed

lemma round64_nonneg_eq:
  "0 \<le> x \<Longrightarrow> round64 x = of_int (half_even (x / 2 powi (exponent64 x - 52))) * 2 powi (exponent64 x - 52)"
  by (cases "x = 0") (simp_all add: round64_def half_even_def Let_def)

lemma round64_upper:
  assumes "0 \<le> x" and "x < 2 powi k" and "- 1021 \<le> k"
  shows "round64 x \<le> x + 2 powi (k - 54)"
proof -
  let ?u = "(2 :: rat) powi (exponent64 x - 52)"
  have e: "exponent64 x \<le> k - 1" using assms by (intro exponent64_upper) simp_all
  have u: "0 < ?u" by simp
  have "?u \<le> 2 powi (k - 53)" using e by (intro power_int_increasing) simp_all
  also have "\<dots> = 2 * 2 powi (k - 54)"
    using power_int_add [of "2 :: rat" 1 "k - 54"] by simp
  finally have half: "?u / 2 \<le> 2 powi (k - 54)" by simp
  have "round64 x = of_int (half_even (x / ?u)) * ?u" using assms(1) by (rule round64_nonneg_eq)
  also have "\<dots> \<le> (x / ?u + 1 / 2) * ?u"
    using u half_even_upper [of "x / ?u"] by (intro mult_right_mono) simp_all
  also have "\<dots> = x + ?u / 2" using u by (simp add: field_simps)
  finally show ?thesis using half by simp
qed

lemma grid_int:
  assumes "e \<le> 52"
  shows "of_int m / (2 :: rat) powi (e - 52) = of_int (m * 2 ^ nat (52 - e))"
    and "of_int (m * 2 ^ nat (52 - e)) * (2 :: rat) powi (e - 52) = of_int m"
proof -
  have "(2 :: rat) powi (e - 52) = 1 / 2 ^ nat (52 - e)"
    using assms power_int_minus_divide [of "2 :: rat" "52 - e"] by (simp add: power_int_def)
  then show "of_int m / (2 :: rat) powi (e - 52) = of_int (m * 2 ^ nat (52 - e))"
    and "of_int (m * 2 ^ nat (52 - e)) * (2 :: rat) powi (e - 52) = of_int m"
    by simp_all
qed

lemma round64_ge_int:
  assumes "0 \<le> x" and "x < 2 powi k" and "- 1021 \<le> k" and "k \<le> 53" and "of_int m \<le> x"
  shows "of_int m \<le> round64 x"
proof -
  let ?u = "(2 :: rat) powi (exponent64 x - 52)"
  let ?g = "m * 2 ^ nat (52 - exponent64 x)"
  have e: "exponent64 x \<le> 52" using exponent64_upper [of x k] assms by simp
  have u: "0 < ?u" by simp
  have "of_int ?g = of_int m / ?u" using grid_int(1) [OF e] by simp
  also have "\<dots> \<le> x / ?u" using u assms(5) by (simp add: divide_right_mono)
  finally have "?g \<le> half_even (x / ?u)" by (rule half_even_ge_int)
  then have "(of_int ?g :: rat) \<le> of_int (half_even (x / ?u))" by (simp only: of_int_le_iff)
  then have "of_int ?g * ?u \<le> of_int (half_even (x / ?u)) * ?u"
    using u by (intro mult_right_mono) simp_all
  then have "of_int m \<le> of_int (half_even (x / ?u)) * ?u"
    by (simp only: grid_int(2) [OF e])
  then show ?thesis by (simp only: round64_nonneg_eq [OF assms(1)])
qed

lemma round64_le_int:
  assumes "0 \<le> x" and "x < 2 powi k" and "- 1021 \<le> k" and "k \<le> 53" and "x \<le> of_int m"
  shows "round64 x \<le> of_int m"
proof -
  let ?u = "(2 :: rat) powi (exponent64 x - 52)"
  let ?g = "m * 2 ^ nat (52 - exponent64 x)"
  have e: "exponent64 x \<le> 52" using exponent64_upper [of x k] assms by simp
  have u: "0 < ?u" by simp
  have "x / ?u \<le> of_int m / ?u" using u assms(5) by (simp add: divide_right_mono)
  also have "\<dots> = of_int ?g" using grid_int(1) [OF e] by simp
  finally have "half_even (x / ?u) \<le> ?g" by (rule half_even_le_int)
  then have "(of_int (half_even (x / ?u)) :: rat) \<le> of_int ?g" by (simp only: of_int_le_iff)
  then have "of_int (half_even (x / ?u)) * ?u \<le> of_int ?g * ?u"
    using u by (intro mult_right_mono) simp_all
  then have "of_int (half_even (x / ?u)) * ?u \<le> of_int m"
    by (simp only: grid_int(2) [OF e])
  then show ?thesis by (simp only: round64_nonneg_eq [OF assms(1)])
qed

lemma round64_of_int:
  assumes "\<bar>m\<bar> < 2 ^ 53"
  shows "round64 (of_int m) = of_int m"
proof -
  have pos: "round64 (of_int n) = of_int n" if "0 \<le> n" "n < 2 ^ 53" for n :: int
  proof -
    have "(of_int n :: rat) < of_int (2 ^ 53)" using that(2) by (simp only: of_int_less_iff)
    then have b: "(of_int n :: rat) < 2 powi 53" by simp
    have "of_int n \<le> round64 (of_int n)"
      using that b by (intro round64_ge_int [where k = 53]) simp_all
    moreover have "round64 (of_int n) \<le> of_int n"
      using that b by (intro round64_le_int [where k = 53]) simp_all
    ultimately show ?thesis by simp
  qed
  show ?thesis
  proof (cases "0 \<le> m")
    case True
    then show ?thesis using assms pos by simp
  next
    case False
    then have "round64 (of_int (- m)) = of_int (- m)" using assms by (intro pos) simp_all
    then show ?thesis using round64_minus [of "of_int m"] by simp
  qed
qed


lemma trunc_minus: "trunc (- x) = - trunc x"
  by (cases "x = 0") (auto simp: trunc_def ceiling_def)

lemma whole_part:
  fixes m n c k :: int
  assumes m: "0 \<le> m" and n: "0 \<le> n" "n < c" and c: "c < 2 ^ 53"
    and k: "1 \<le> k" "k \<le> 53" and mk: "of_int m + 1 \<le> (2 :: rat) powi k"
    and gap: "of_int c * (2 powi (k - 54) + 2 powi (- 54)) < (1 :: rat)"
  shows "\<lfloor>round64 (round64 (of_int m) + round64 (round64 (of_int n) / of_int c))\<rfloor> = m"
proof -
  let ?q = "of_int n / of_int c :: rat"
  let ?s = "of_int m + round64 ?q :: rat"
  have cpos: "(0 :: rat) < of_int c" using n by simp
  have "(2 :: rat) powi k \<le> 2 powi 53" using k by (intro power_int_increasing) simp_all
  with mk have "(of_int m :: rat) < of_int (2 ^ 53)" by simp
  then have "m < 2 ^ 53" by (simp only: of_int_less_iff)
  with m have rm: "round64 (of_int m) = of_int m" by (intro round64_of_int) simp
  have rn: "round64 (of_int n) = of_int n" using n c by (intro round64_of_int) simp
  have q0: "0 \<le> ?q" using n by simp
  have "n + 1 \<le> c" using n(2) by simp
  then have "(of_int (n + 1) :: rat) \<le> of_int c" by (simp only: of_int_le_iff)
  then have "of_int n + 1 \<le> (of_int c :: rat)" by simp
  then have q1: "?q \<le> 1 - 1 / of_int c" using cpos by (simp add: field_simps)
  then have qlt: "?q < 2 powi 0" using cpos by (simp add: less_le_trans [OF _ order_refl] field_simps)
  have r0: "0 \<le> round64 ?q"
    using round64_ge_int [OF q0 qlt, of 0] q0 by simp
  have r1: "round64 ?q \<le> ?q + 2 powi (- 54)"
    using round64_upper [OF q0 qlt] by simp
  have inv: "2 powi (k - 54) + 2 powi (- 54) < 1 / (of_int c :: rat)"
    using gap cpos by (simp add: field_simps)
  have p: "(0 :: rat) < 2 powi (k - 54)" by simp
  have s0: "0 \<le> ?s" using m r0 by simp
  have "?s \<le> of_int m + 1 - 1 / of_int c + 2 powi (- 54)" using q1 r1 by simp
  also have "\<dots> < of_int m + 1 - 2 powi (k - 54)" using inv by simp
  finally have s1: "?s < of_int m + 1 - 2 powi (k - 54)" .
  then have sk: "?s < 2 powi k" using mk p by linarith
  have lo: "of_int m \<le> round64 ?s"
    using s0 sk k r0 by (intro round64_ge_int [where k = k]) simp_all
  have "round64 ?s \<le> ?s + 2 powi (k - 54)"
    using s0 sk k by (intro round64_upper) simp_all
  with s1 have hi: "round64 ?s < of_int m + 1" by simp
  show ?thesis unfolding rm rn using lo hi by (rule floor_unique)
qed

lemma whole64_nonneg:
  fixes a c k :: int
  assumes a: "0 \<le> a" and c: "0 < c" "c < 2 ^ 53"
    and k: "1 \<le> k" "k \<le> 53" and ak: "a < c * 2 ^ nat k"
    and gap: "of_int c * (2 powi (k - 54) + 2 powi (- 54)) < (1 :: rat)"
  shows "0 \<le> whole64 a c" and "\<lfloor>whole64 a c\<rfloor> = a div c"
proof -
  have sd: "a sdiv c = a div c" "a smod c = a mod c"
    using a c by (cases "a = 0"; simp add: signed_divide_int_def signed_modulo_int_def)+
  have "c * (a div c) + a mod c = a" by (rule mult_div_mod_eq)
  moreover have "0 \<le> a mod c" using c by simp
  ultimately have "c * (a div c) < c * 2 ^ nat k" using ak by linarith
  then have "a div c < 2 ^ nat k" using c by (simp only: mult_less_cancel_left_pos)
  then have "a div c + 1 \<le> 2 ^ nat k" by simp
  then have "(of_int (a div c + 1) :: rat) \<le> of_int (2 ^ nat k)" by (simp only: of_int_le_iff)
  then have mk: "of_int (a div c) + 1 \<le> (2 :: rat) powi k"
    using k by (simp add: power_int_def)
  have m0: "0 \<le> a div c" using a c by (simp add: pos_imp_zdiv_nonneg_iff)
  have n: "0 \<le> a mod c" "a mod c < c" using c by simp_all
  show fl: "\<lfloor>whole64 a c\<rfloor> = a div c"
    unfolding whole64_def sd using m0 n c(2) k mk gap by (rule whole_part)
  have "of_int \<lfloor>whole64 a c\<rfloor> \<le> whole64 a c" by simp
  with fl m0 show "0 \<le> whole64 a c" by simp
qed

lemma whole64_minus: "whole64 (- a) c = - whole64 a c"
proof -
  have "(- a) sdiv c = - (a sdiv c)" "(- a) smod c = - (a smod c)"
    by (simp_all add: signed_divide_int_def signed_modulo_int_def)
  moreover have "- x - y = - (x + y)" for x y :: rat by simp
  ultimately show ?thesis
    apply (simp only: whole64_def of_int_minus round64_minus minus_divide_left [symmetric]
        uminus_add_conv_diff)
    apply (simp add: add.commute)
    done
qed

lemma trunc_whole64:
  fixes a c k :: int
  assumes a: "\<bar>a\<bar> < c * 2 ^ nat k" and c: "0 < c" "c < 2 ^ 53"
    and k: "1 \<le> k" "k \<le> 53"
    and gap: "of_int c * (2 powi (k - 54) + 2 powi (- 54)) < (1 :: rat)"
  shows "trunc (whole64 a c) = a sdiv c"
proof (cases "0 \<le> a")
  case True
  then have sd: "a sdiv c = a div c"
    using c by (cases "a = 0"; simp add: signed_divide_int_def)
  from True a have "a < c * 2 ^ nat k" by simp
  from whole64_nonneg [OF True c k this gap] show ?thesis
    by (simp add: trunc_def sd)
next
  case False
  then have n: "0 \<le> - a" "- a < c * 2 ^ nat k" using a by simp_all
  note w = whole64_nonneg [OF n(1) c k n(2) gap]
  have "trunc (whole64 (- a) c) = (- a) div c" using w by (simp add: trunc_def)
  moreover have "a sdiv c = - ((- a) div c)"
    using False c by (simp add: signed_divide_int_def)
  moreover have "trunc (whole64 a c) = - trunc (whole64 (- a) c)"
    by (simp only: whole64_minus trunc_minus)
  ultimately show ?thesis by simp
qed


lemma exponent64_eq:
  assumes "2 powi e \<le> \<bar>x\<bar>" and "\<bar>x\<bar> < 2 powi (e + 1)" and "- 1022 \<le> e"
  shows "exponent64 x = e"
proof -
  have up: "exponent64 x \<le> e" using exponent64_upper [OF assms(2)] assms(3) by simp
  have "(of_int (2 ^ nat (e + 1022)) :: rat) = 2 ^ nat (e - 1 + 1 + 1022)" by simp
  also have "\<dots> = 2 powi e * normal_scale"
    using assms(3) by (simp add: powi_normal_scale)
  also have "\<dots> \<le> \<bar>x\<bar> * normal_scale"
    using assms(1) normal_scale_pos by (simp add: mult_right_mono)
  finally have "2 ^ nat (e + 1022) \<le> \<lfloor>\<bar>x\<bar> * normal_scale\<rfloor>" by (simp only: le_floor_iff)
  moreover have "nat (e + 1023) - 1 = nat (e + 1022)" using assms(3) by simp
  ultimately have "e + 1023 \<le> bitlen \<lfloor>\<bar>x\<bar> * normal_scale\<rfloor>"
    by (simp only: bitlen_ge_iff_power) simp
  then have "e \<le> exponent64 x" by (simp add: exponent64_def)
  with up show ?thesis by simp
qed

lemma round64_at:
  assumes "2 powi e \<le> x" and "x < 2 powi (e + 1)" and "- 1022 \<le> e"
  shows "round64 x = of_int (half_even (x / 2 powi (e - 52))) * 2 powi (e - 52)"
proof -
  have "(0 :: rat) < 2 powi e" by simp
  with assms(1) have x: "0 < x" by linarith
  then have "exponent64 x = e" using assms by (intro exponent64_eq) simp_all
  then show ?thesis using x round64_nonneg_eq [of x] by simp
qed

lemma floor_rat_numerals:
  "\<lfloor>numeral a / numeral b :: rat\<rfloor> = numeral a div numeral b"
  using floor_divide_of_int_eq [of "numeral a" "numeral b", where ?'a = rat] by simp


lemma Minutes_int_exact:
  assumes "\<bar>sint d\<bar> < 15728640000000000"
  shows "Minutes_int d = sint d sdiv 60000000000"
proof -
  have "Minutes d = whole64 (sint d) 60000000000"
    by (simp add: Minutes_def whole64_def Let_def)
  moreover have "trunc (whole64 (sint d) 60000000000) = sint d sdiv 60000000000"
    using assms by (intro trunc_whole64 [where k = 18]) simp_all
  ultimately show ?thesis by (simp add: Minutes_int_def)
qed

lemma Seconds_int_exact:
  assumes "\<bar>sint d\<bar> < 16777216000000000"
  shows "Seconds_int d = sint d sdiv 1000000000"
proof -
  have "Seconds d = whole64 (sint d) 1000000000"
    by (simp add: Seconds_def whole64_def Let_def)
  moreover have "trunc (whole64 (sint d) 1000000000) = sint d sdiv 1000000000"
    using assms by (intro trunc_whole64 [where k = 24]) simp_all
  ultimately show ?thesis by (simp add: Seconds_int_def)
qed

text \<open>
  Beyond these bounds the rounding shows: 16777216.999999999 seconds are 16777217
  seconds to \<open>Seconds\<close>, so that the seconds printed are 17 and not 16.
\<close>

lemma Seconds_rounds_up:
  "Seconds_int 16777216999999999 = 16777217 \<and> Minutes_int 16777216999999999 = 279620"
proof -
  have i: "round64 16777216 = 16777216" "round64 999999999 = 999999999"
    "round64 279620 = 279620" "round64 16999999999 = 16999999999"
    using round64_of_int [of 16777216] round64_of_int [of 999999999]
      round64_of_int [of 279620] round64_of_int [of 16999999999] by simp_all
  have q: "round64 (999999999 / 1000000000) = 9007199245733793 / 9007199254740992"
    by (subst round64_at [where e = "- 1"])
      (simp_all add: half_even_def Let_def floor_rat_numerals)
  have s: "round64 (151115736459027892572065 / 9007199254740992) = 16777217"
    by (subst round64_at [where e = 24])
      (simp_all add: half_even_def Let_def floor_rat_numerals)
  have q': "round64 (16999999999 / 60000000000) = 2552039788693161 / 9007199254740992"
    by (subst round64_at [where e = "- 2"])
      (simp_all add: half_even_def Let_def floor_rat_numerals)
  have s': "round64 (2518595607650464876201 / 9007199254740992)
              = 2401919944429841 / 8589934592"
    by (subst round64_at [where e = 18])
      (simp_all add: half_even_def Let_def floor_rat_numerals)
  have sec: "Seconds 16777216999999999 = 16777217"
    by (simp add: Seconds_def Let_def signed_divide_int_def signed_modulo_int_def i q s)
  have min: "Minutes 16777216999999999 = 2401919944429841 / 8589934592"
    by (simp add: Minutes_def Let_def signed_divide_int_def signed_modulo_int_def i q' s')
  have "Seconds_int 16777216999999999 = 16777217"
    unfolding Seconds_int_def sec by (simp add: trunc_def)
  moreover have "Minutes_int 16777216999999999 = 279620"
    unfolding Minutes_int_def min by (simp add: trunc_def floor_rat_numerals)
  ultimately show ?thesis by simp
qed

text \<open>
  Just past 262144 minutes the rounding reaches the minutes: 262144 minutes and
  59.999999999 seconds are 262145 minutes to \<open>Minutes\<close>.
\<close>

lemma Minutes_rounds_up:
  "Minutes_int 15728699999999999 = 262145 \<and> Seconds_int 15728699999999999 = 15728699"
proof -
  have i: "round64 262144 = 262144" "round64 59999999999 = 59999999999"
    using round64_of_int [of 262144] round64_of_int [of 59999999999] by simp_all
  have q: "round64 (59999999999 / 60000000000) = 1125899906823859 / 1125899906842624"
    by (subst round64_at [where e = "- 1"])
      (simp_all add: half_even_def Let_def floor_rat_numerals)
  have s: "round64 (295149031079259649715 / 1125899906842624) = 262145"
    by (subst round64_at [where e = 18])
      (simp_all add: half_even_def Let_def floor_rat_numerals)
  have min: "Minutes 15728699999999999 = 262145"
    by (simp add: Minutes_def Let_def signed_divide_int_def signed_modulo_int_def i q s)
  have "Minutes_int 15728699999999999 = 262145"
    unfolding Minutes_int_def min by (simp add: trunc_def)
  moreover have "Seconds_int 15728699999999999 = 15728699"
    by (simp add: Seconds_int_exact signed_divide_int_def)
  ultimately show ?thesis by simp
qed

subsection \<open>Facts about the client's output\<close>

lemma sdiv_minutes_small:
  fixes a :: int
  assumes "- 1000000000 < a" and "a < 6000000000000"
  shows "0 \<le> a sdiv 60000000000 \<and> a sdiv 60000000000 < 100"
proof (cases "0 \<le> a")
  case True
  then have "a sdiv 60000000000 = a div 60000000000"
    by (cases "a = 0") (simp_all add: signed_divide_int_def)
  moreover have "a div 60000000000 \<le> 5999999999999 div 60000000000"
    using assms(2) by (intro zdiv_mono1) simp_all
  moreover have "0 \<le> a div 60000000000" using True by (simp add: pos_imp_zdiv_nonneg_iff)
  ultimately show ?thesis by simp
next
  case False
  then have "(- a) div 60000000000 = 0" using assms(1) by (intro div_pos_pos_trivial) simp_all
  then show ?thesis using False by (simp add: signed_divide_int_def)
qed

lemma sdiv_seconds_small:
  fixes a :: int
  assumes "- 1000000000 < a"
  shows "0 \<le> (a sdiv 1000000000) smod 60 \<and> (a sdiv 1000000000) smod 60 < 60"
proof -
  have "0 \<le> a sdiv 1000000000"
  proof (cases "0 \<le> a")
    case True
    then have "a sdiv 1000000000 = a div 1000000000"
      by (cases "a = 0") (simp_all add: signed_divide_int_def)
    then show ?thesis using True by (simp add: pos_imp_zdiv_nonneg_iff)
  next
    case False
    then have "(- a) div 1000000000 = 0" using assms by (intro div_pos_pos_trivial) simp_all
    then show ?thesis using False by (simp add: signed_divide_int_def)
  qed
  then have "(a sdiv 1000000000) smod 60 = (a sdiv 1000000000) mod 60"
    by (cases "a sdiv 1000000000 = 0") (simp_all add: signed_modulo_int_def)
  then show ?thesis by simp
qed

lemma digit_char_0: "digit_char 0 = CHR ''0''"
  by (simp add: digit_char_def)

lemma dec_digit: "n < 10 \<Longrightarrow> dec n = [digit_char n]"
  by (subst dec.simps) simp

lemma dec_two: "\<not> n < 10 \<Longrightarrow> n < 100 \<Longrightarrow> dec n = [digit_char (n div 10), digit_char (n mod 10)]"
  by (subst dec.simps) (simp add: dec_digit)

lemma dec_two_digits:
  "n < 100 \<Longrightarrow> zero_pad 2 (dec n) = [digit_char (n div 10), digit_char (n mod 10)]"
  by (cases "n < 10") (simp_all add: zero_pad_def dec_digit dec_two digit_char_0)

lemma fmt_02d_two_digits:
  "0 \<le> i \<Longrightarrow> i < 100 \<Longrightarrow> fmt_02d i = [digit_char (nat i div 10), digit_char (nat i mod 10)]"
  by (simp add: fmt_02d_def dec_two_digits)

lemma dec_nonempty: "dec n \<noteq> []"
  by (subst dec.simps) simp

lemma length_dec: "1 \<le> length (dec n)"
  using dec_nonempty [of n] by (cases "dec n") simp_all

lemma fmt_02d_width: "2 \<le> length (fmt_02d i)"
  using length_dec [of "nat i"] length_dec [of "nat (- i)"]
  by (auto simp: fmt_02d_def zero_pad_def)

subsection \<open>Adding seconds\<close>

text \<open>
  Claim C1. \<open>AddSeconds\<close> adds the seconds to the remaining duration, wrapping as
  \<open>int64\<close> does, and does not clamp: the initial duration stays, the phase changes only
  from idle to countdown, exactly when the new duration is positive, and in every other
  case nothing but the duration changes. A duration driven below zero is clamped by the
  loop, not by \<open>AddSeconds\<close>: when a goroutine of \<open>run\<close> holds a tick and the new duration
  is negative and at least one second above the least \<open>int64\<close>, the iteration of that
  goroutine sets the duration to zero and the phase to idle.
\<close>

theorem AddSeconds_adds_without_clamp:
  "duration (AddSeconds n w) = duration w + n * Second \<and>
   initialDuration (AddSeconds n w) = initialDuration w \<and>
   state (AddSeconds n w) =
     (if state w = StateIdle \<and> 0 <s duration w + n * Second then StateCountdown else state w) \<and>
   (\<not> (state w = StateIdle \<and> 0 <s duration w + n * Second) \<longrightarrow>
      AddSeconds n w = w\<lparr>duration := duration w + n * Second\<rparr>) \<and>
   (duration w + n * Second <s 0 \<and>
    - 9223372035854775808 \<le> sint (duration w + n * Second) \<and>
    \<not> panicked w \<and> g < length (runs w) \<and> runs w ! g = Woken k \<longrightarrow>
      state (step (Iterate g) (AddSeconds n w)) = StateIdle \<and>
      duration (step (Iterate g) (AddSeconds n w)) = 0)"
proof -
  have clamp: "state (step (Iterate g) (AddSeconds n w)) = StateIdle \<and>
      duration (step (Iterate g) (AddSeconds n w)) = 0"
    if h: "duration w + n * Second <s 0"
      "- 9223372035854775808 \<le> sint (duration w + n * Second)"
      "\<not> panicked w" "g < length (runs w)" "runs w ! g = Woken k"
  proof -
    let ?d = "duration w + n * Second"
    have neg: "sint ?d < 0" using h(1) by (simp add: word_sless_alt)
    then have a: "AddSeconds n w = w\<lparr>duration := ?d\<rparr>"
      by (simp add: AddSeconds_def Let_def word_sless_alt)
    have "sint (?d - Second) = sint ?d - 1000000000"
      using neg h(2) by (subst sint_sub_exact) (simp_all add: sint_Second)
    with neg have le: "?d - Second \<le>s 0" by (simp add: word_sle_eq)
    show ?thesis
      using h le
      by (simp add: a run_body_def Let_def StopTicker_def sendNotification_def
          split: option.splits)
  qed
  show ?thesis
    using clamp
    by (simp add: AddSeconds_def Let_def NewTicker_def go_run_def)
qed

theorem AddSeconds_adds_without_clamp_witness:
  "state (daemon_after [Enter 0, Tick 0, Receive 0] (10 * Second)) = StateCountdown \<and>
   duration (daemon_after [Enter 0, Tick 0, Receive 0] (10 * Second)) = 10 * Second \<and>
   runs (daemon_after [Enter 0, Tick 0, Receive 0] (10 * Second)) ! 0 = Woken 0 \<and>
   \<not> panicked (daemon_after [Enter 0, Tick 0, Receive 0] (10 * Second)) \<and>
   10 * Second + (- 1000) * Second <s 0 \<and>
   - 9223372035854775808 \<le> sint (10 * Second + (- 1000) * Second) \<and>
   AddSeconds (- 1000) (daemon_after [Enter 0, Tick 0, Receive 0] (10 * Second)) =
     (daemon_after [Enter 0, Tick 0, Receive 0] (10 * Second))\<lparr>duration := - 990 * Second\<rparr> \<and>
   state (step (Iterate 0)
     (AddSeconds (- 1000) (daemon_after [Enter 0, Tick 0, Receive 0] (10 * Second)))) = StateIdle \<and>
   duration (step (Iterate 0)
     (AddSeconds (- 1000) (daemon_after [Enter 0, Tick 0, Receive 0] (10 * Second)))) = 0"
  using AddSeconds_adds_without_clamp
    [of "- 1000" "daemon_after [Enter 0, Tick 0, Receive 0] (10 * Second)" 0 0]
  by (simp add: timer_defs)

text \<open>
  On a timer counting down from ten seconds, \<open>AddSeconds(-1000)\<close> leaves the status
  at countdown with minus 990 seconds.
\<close>

theorem AddSeconds_clamp_counterexample:
  "fst (GetStatus (AddSeconds (- 1000) (Start (NewTimer (10 * Second)))))
     = \<lparr>State = StateCountdown, Duration = - 990 * Second\<rparr> \<and>
   fst (GetStatus (AddSeconds (- 1000) (Start (NewTimer (10 * Second)))))
     \<noteq> \<lparr>State = StateIdle, Duration = 0\<rparr> \<and>
   Duration (fst (GetStatus (AddSeconds (- 1000) (Start (NewTimer (10 * Second)))))) <s 0"
  by (simp add: timer_defs)

text \<open>
  Where the clamp does not reach: a sum that wraps to the least \<open>int64\<close> is wrapped
  again by the decrement, and an idle timer with no goroutine keeps a negative duration.
\<close>

lemma AddSeconds_wraps_past_clamp:
  "Atoi ''18014398509481974'' = Some 18014398509481974 \<and>
   duration (daemon_after [Enter 0, Tick 0, Receive 0, CallAddSeconds 18014398509481974]
      (10 * Second)) = - 9223372036854775808 \<and>
   fst (GetStatus (daemon_after [Enter 0, Tick 0, Receive 0, CallAddSeconds 18014398509481974,
      Iterate 0] (10 * Second))) =
     \<lparr>State = StateCountdown, Duration = 9223372035854775808\<rparr>"
  by (simp add: timer_defs Atoi_digits_def is_digit_def digits_value_def)

lemma AddSeconds_negative_while_idle:
  "daemon_after [CallAddSeconds (- 5)] 0 =
     \<lparr>duration = - 5 * Second, initialDuration = 0, state = StateIdle, ticker = None,
      tickers = [], runs = [], notified = 0, panicked = False\<rparr>"
  by (simp add: timer_defs)

subsection \<open>The invariant\<close>

text \<open>
  Claim C2. After every list of events from every initial duration: nothing has
  panicked, the phase is countdown or idle, and it is countdown exactly when a tick loop
  is active. When the initial duration is not negative and every call of \<open>AddSeconds\<close>
  in the list leaves a positive duration, or a duration of zero on an idle timer, then
  moreover the duration is never negative, the phase is countdown exactly when the
  duration is positive and a tick loop is active, and idle exactly when the duration is
  zero or no tick loop is active.
\<close>

theorem phase_and_remaining_invariant:
  "\<not> panicked (daemon_after es initial) \<and>
   (state (daemon_after es initial) = StateCountdown \<or>
    state (daemon_after es initial) = StateIdle) \<and>
   ((state (daemon_after es initial) = StateCountdown) = loop_active (daemon_after es initial)) \<and>
   (0 \<le>s initial \<and> adds_keep_time es (Start (NewTimer initial)) \<longrightarrow>
      0 \<le>s duration (daemon_after es initial) \<and>
      ((state (daemon_after es initial) = StateCountdown) =
         (0 <s duration (daemon_after es initial) \<and> loop_active (daemon_after es initial))) \<and>
      ((state (daemon_after es initial) = StateIdle) =
         (duration (daemon_after es initial) = 0 \<or> \<not> loop_active (daemon_after es initial))))"
proof -
  let ?w = "daemon_after es initial"
  have c0: "consistent (Start (NewTimer initial))" by (rule consistent_Start)
  have c: "consistent ?w"
    unfolding daemon_after_def by (intro consistent_run_events consistent_Start)
  note p = consistent_phase [OF c]
  have "0 \<le>s duration ?w \<and>
        ((state ?w = StateCountdown) = (0 <s duration ?w \<and> loop_active ?w)) \<and>
        ((state ?w = StateIdle) = (duration ?w = 0 \<or> \<not> loop_active ?w))"
    if h: "0 \<le>s initial" "adds_keep_time es (Start (NewTimer initial))"
  proof -
    have "timed ?w"
      unfolding daemon_after_def using h c0 consistent_phase(1) [OF c0]
      by (intro timed_run_events timed_Start)
    then have i: "if state ?w = StateIdle then duration ?w = 0 else 0 <s duration ?w"
      by (simp add: timed_def)
    show ?thesis
      using i p states_differ
      by (auto simp: word_sle_eq word_sless_alt split: if_splits)
  qed
  with p show ?thesis by blast
qed

theorem phase_and_remaining_invariant_witness:
  "0 \<le>s 10 * Second \<and>
   adds_keep_time [Enter 0, Tick 0, Receive 0, Iterate 0, CallAddSeconds (- 3), CallReset,
                   CallAddSeconds 5, CallGetStatus] (Start (NewTimer (10 * Second))) \<and>
   fst (GetStatus (daemon_after [Enter 0, Tick 0, Receive 0, Iterate 0, CallAddSeconds (- 3)]
                     (10 * Second))) = \<lparr>State = StateCountdown, Duration = 6 * Second\<rparr> \<and>
   state (daemon_after [Enter 0, Tick 0, Receive 0, Iterate 0, CallAddSeconds (- 3), CallReset,
                        CallAddSeconds 5, CallGetStatus] (10 * Second)) = StateCountdown \<and>
   0 <s duration (daemon_after [Enter 0, Tick 0, Receive 0, Iterate 0, CallAddSeconds (- 3),
                                CallReset, CallAddSeconds 5, CallGetStatus] (10 * Second)) \<and>
   loop_active (daemon_after [Enter 0, Tick 0, Receive 0, Iterate 0, CallAddSeconds (- 3),
                              CallReset, CallAddSeconds 5, CallGetStatus] (10 * Second))"
  using phase_and_remaining_invariant
    [of "[Enter 0, Tick 0, Receive 0, Iterate 0, CallAddSeconds (- 3), CallReset,
          CallAddSeconds 5, CallGetStatus]" "10 * Second"]
  by (simp add: timer_defs)

text \<open>
  After one tick of a ten-second countdown, \<open>AddSeconds(-1000)\<close> leaves the status at
  countdown with a negative duration; a daemon started with minus five seconds is idle
  with a negative duration.
\<close>

theorem negative_remaining_counterexample:
  "fst (GetStatus (daemon_after [Enter 0, Tick 0, Receive 0, Iterate 0, CallAddSeconds (- 1000)]
          (10 * Second)))
     = \<lparr>State = StateCountdown, Duration = - 991 * Second\<rparr> \<and>
   - 991 * Second <s 0 \<and>
   fst (GetStatus (daemon_after [] (- 5 * Second)))
     = \<lparr>State = StateIdle, Duration = - 5 * Second\<rparr> \<and>
   - 5 * Second <s 0"
  by (simp add: timer_defs)

subsection \<open>A superseded loop\<close>

text \<open>
  Claim C3. A goroutine that has received a tick and waits for the lock while \<open>Reset\<close>
  runs is not stopped by \<open>Reset\<close>: its ticker is stopped and a new ticker and goroutine
  are started, but it still decrements the restored duration, before the new ticker
  has ticked at all; the first tick of the new ticker then decrements again.
\<close>

theorem stale_loop_decrements_after_Reset:
  "runs (daemon_after [Enter 0, Tick 0, Receive 0, CallReset] (90 * Second)) = [Woken 0, Spawned] \<and>
   ticker (daemon_after [Enter 0, Tick 0, Receive 0, CallReset] (90 * Second)) = Some 1 \<and>
   tickers (daemon_after [Enter 0, Tick 0, Receive 0, CallReset] (90 * Second))
     = [\<lparr>stopped = True, pending = False\<rparr>, \<lparr>stopped = False, pending = False\<rparr>] \<and>
   duration (daemon_after [Enter 0, Tick 0, Receive 0, CallReset] (90 * Second)) = 90 * Second \<and>
   duration (daemon_after [Enter 0, Tick 0, Receive 0, CallReset, Iterate 0] (90 * Second))
     = 89 * Second \<and>
   duration (daemon_after [Enter 0, Tick 0, Receive 0, CallReset, Iterate 0,
                           Enter 1, Tick 1, Receive 1, Iterate 1] (90 * Second))
     = 88 * Second"
  by (simp add: timer_defs)

subsection \<open>Requests that fail\<close>

text \<open>
  Claim C4. A request that does not decode, an \<open>add_seconds\<close> request whose payload
  \<open>Atoi\<close> rejects, and a request of unknown type are each answered with \<open>Success\<close>
  false and a message, and the daemon is left exactly as it was.
\<close>

theorem recoverable_errors_leave_timer:
  "handleConnection (Inl err) w =
     (\<lparr>Success = False, Message = ''Invalid request format.'', Status = zero_TimerStatus\<rparr>, w) \<and>
   (Atoi payload = None \<longrightarrow>
      handleConnection (Inr \<lparr>Type = RequestTypeAddSeconds, Payload = payload\<rparr>) w =
        (\<lparr>Success = False, Message = ''Invalid seconds value.'', Status = zero_TimerStatus\<rparr>, w)) \<and>
   (kind \<noteq> RequestTypeStatus \<and> kind \<noteq> RequestTypeAddSeconds \<and> kind \<noteq> RequestTypeReset \<longrightarrow>
      handleConnection (Inr \<lparr>Type = kind, Payload = payload\<rparr>) w =
        (\<lparr>Success = False, Message = ''Unknown request type.'', Status = zero_TimerStatus\<rparr>, w))"
  by (simp add: handleConnection_def zero_Response_def RequestTypeStatus_def
      RequestTypeAddSeconds_def RequestTypeReset_def)

theorem recoverable_errors_leave_timer_witness:
  "Atoi ''ten'' = None \<and>
   ''pause'' \<noteq> RequestTypeStatus \<and> ''pause'' \<noteq> RequestTypeAddSeconds \<and>
   ''pause'' \<noteq> RequestTypeReset \<and>
   handleConnection (Inr \<lparr>Type = RequestTypeAddSeconds, Payload = ''ten''\<rparr>)
       (Start (NewTimer (10 * Second))) =
     (\<lparr>Success = False, Message = ''Invalid seconds value.'', Status = zero_TimerStatus\<rparr>,
      Start (NewTimer (10 * Second))) \<and>
   handleConnection (Inr \<lparr>Type = ''pause'', Payload = ''ten''\<rparr>) (Start (NewTimer (10 * Second))) =
     (\<lparr>Success = False, Message = ''Unknown request type.'', Status = zero_TimerStatus\<rparr>,
      Start (NewTimer (10 * Second)))"
  using recoverable_errors_leave_timer [of _ "Start (NewTimer (10 * Second))" "''ten''" "''pause''"]
  by (simp add: RequestTypeStatus_def RequestTypeAddSeconds_def RequestTypeReset_def
      Atoi_digits_def is_digit_def)

subsection \<open>Startup\<close>




subsection \<open>Reset\<close>

text \<open>
  Claim C6. \<open>Reset\<close> sets the duration to the initial duration, which it keeps, and
  never panics. With a positive initial duration the phase becomes countdown, with a
  fresh ticker and a new goroutine, so that a tick loop is active; otherwise the phase
  becomes idle, no goroutine is started and no tick loop is active. With an initial
  duration of zero the result is idle with zero remaining, whatever the duration was.
  The ticker in use before is stopped.
\<close>

theorem Reset_restores_initial:
  "duration (Reset w) = initialDuration w \<and>
   initialDuration (Reset w) = initialDuration w \<and>
   (panicked (Reset w) = panicked w) \<and>
   (0 <s initialDuration w \<longrightarrow>
      state (Reset w) = StateCountdown \<and> loop_active (Reset w) \<and>
      ticker (Reset w) = Some (length (tickers w)) \<and>
      runs (Reset w) = runs w @ [Spawned]) \<and>
   (\<not> 0 <s initialDuration w \<longrightarrow>
      state (Reset w) = StateIdle \<and> \<not> loop_active (Reset w) \<and> runs (Reset w) = runs w) \<and>
   (initialDuration w = 0 \<longrightarrow> state (Reset w) = StateIdle \<and> duration (Reset w) = 0) \<and>
   (ticker w = Some k \<and> k < length (tickers w) \<longrightarrow> stopped (tickers (Reset w) ! k))"
  by (auto simp: Reset_def Let_def StopTicker_def NewTicker_def go_run_def loop_active_def
      serves_def nth_append split: option.splits)

theorem Reset_restores_initial_witness:
  "0 <s initialDuration (daemon_after [Enter 0, Tick 0, Receive 0, Iterate 0] (90 * Second)) \<and>
   fst (GetStatus (daemon_after [Enter 0, Tick 0, Receive 0, Iterate 0] (90 * Second))) =
     \<lparr>State = StateCountdown, Duration = 89 * Second\<rparr> \<and>
   fst (GetStatus (Reset (daemon_after [Enter 0, Tick 0, Receive 0, Iterate 0] (90 * Second)))) =
     \<lparr>State = StateCountdown, Duration = 90 * Second\<rparr> \<and>
   loop_active (Reset (daemon_after [Enter 0, Tick 0, Receive 0, Iterate 0] (90 * Second))) \<and>
   initialDuration (daemon_after [CallAddSeconds 30] 0) = 0 \<and>
   \<not> 0 <s initialDuration (daemon_after [CallAddSeconds 30] 0) \<and>
   fst (GetStatus (daemon_after [CallAddSeconds 30] 0)) =
     \<lparr>State = StateCountdown, Duration = 30 * Second\<rparr> \<and>
   fst (GetStatus (Reset (daemon_after [CallAddSeconds 30] 0))) =
     \<lparr>State = StateIdle, Duration = 0\<rparr> \<and>
   \<not> loop_active (Reset (daemon_after [CallAddSeconds 30] 0))"
  using Reset_restores_initial [of "daemon_after [Enter 0, Tick 0, Receive 0, Iterate 0] (90 * Second)"]
    Reset_restores_initial [of "daemon_after [CallAddSeconds 30] 0"]
  by (simp add: timer_defs)

text \<open>
  Claim C7. \<open>Reset\<close> called twice in a row leaves the same status (phase and
  remaining duration) as \<open>Reset\<close> called once.
\<close>

theorem Reset_idempotent:
  "fst (GetStatus (Reset (Reset w))) = fst (GetStatus (Reset w)) \<and>
   initialDuration (Reset (Reset w)) = initialDuration (Reset w)"
  by (simp add: GetStatus_def Reset_def Let_def StopTicker_def NewTicker_def go_run_def
      split: option.splits)

theorem Reset_idempotent_witness:
  "fst (GetStatus (Reset (Reset (daemon_after [Enter 0, Tick 0, Receive 0, Iterate 0] (90 * Second)))))
     = \<lparr>State = StateCountdown, Duration = 90 * Second\<rparr> \<and>
   fst (GetStatus (Reset (daemon_after [Enter 0, Tick 0, Receive 0, Iterate 0] (90 * Second))))
     = \<lparr>State = StateCountdown, Duration = 90 * Second\<rparr>"
  using Reset_idempotent [of "daemon_after [Enter 0, Tick 0, Receive 0, Iterate 0] (90 * Second)"]
  by (simp add: timer_defs)

subsection \<open>The wire format\<close>

text \<open>
  Claim C8. For a \<open>Request\<close> and for a \<open>Response\<close> whose strings are well-formed UTF-8,
  decoding the encoding gives the value back.
\<close>

theorem wire_round_trip:
  "(utf8_valid (Type req) \<and> utf8_valid (Payload req) \<longrightarrow>
      unmarshal_Request (marshal_Request req) = Inr req) \<and>
   (utf8_valid (Message resp) \<and> utf8_valid (State (Status resp)) \<longrightarrow>
      unmarshal_Response (marshal_Response resp) = Inr resp)"
proof (intro conjI impI)
  assume "utf8_valid (Type req) \<and> utf8_valid (Payload req)"
  then show "unmarshal_Request (marshal_Request req) = Inr req"
    by (cases req)
      (simp add: marshal_Request_def tags_differ zero_Request_def coerce_utf8_valid)
next
  assume "utf8_valid (Message resp) \<and> utf8_valid (State (Status resp))"
  then show "unmarshal_Response (marshal_Response resp) = Inr resp"
    by (cases resp)
      (simp add: marshal_Response_def tags_differ zero_Response_def store_marshal_TimerStatus
        coerce_utf8_valid)
qed

theorem wire_round_trip_witness:
  "utf8_valid RequestTypeAddSeconds \<and> utf8_valid ''-30'' \<and>
   marshal_Request \<lparr>Type = RequestTypeAddSeconds, Payload = ''-30''\<rparr> =
     JObject [(''type'', JString ''add_seconds''), (''payload'', JString ''-30'')] \<and>
   unmarshal_Request
     (JObject [(''type'', JString ''add_seconds''), (''payload'', JString ''-30'')]) =
     Inr \<lparr>Type = RequestTypeAddSeconds, Payload = ''-30''\<rparr> \<and>
   utf8_valid [CHR 0xC3, CHR 0xA9] \<and> utf8_valid StateCountdown \<and>
   marshal_Response \<lparr>Success = True, Message = [CHR 0xC3, CHR 0xA9],
        Status = \<lparr>State = StateCountdown, Duration = 90 * Second\<rparr>\<rparr> =
     JObject [(''success'', JBool True), (''message'', JString [CHR 0xC3, CHR 0xA9]),
              (''status'', JObject [(''state'', JString ''countdown''),
                                    (''duration'', JNumber 90000000000)])] \<and>
   unmarshal_Response
     (JObject [(''success'', JBool True), (''message'', JString [CHR 0xC3, CHR 0xA9]),
               (''status'', JObject [(''state'', JString ''countdown''),
                                     (''duration'', JNumber 90000000000)])]) =
     Inr \<lparr>Success = True, Message = [CHR 0xC3, CHR 0xA9],
          Status = \<lparr>State = StateCountdown, Duration = 90 * Second\<rparr>\<rparr>"
  using wire_round_trip
      [of "\<lparr>Type = RequestTypeAddSeconds, Payload = ''-30''\<rparr>"
          "\<lparr>Success = True, Message = [CHR 0xC3, CHR 0xA9],
            Status = \<lparr>State = StateCountdown, Duration = 90 * Second\<rparr>\<rparr>"]
  by (simp add: marshal_Request_def marshal_Response_def marshal_TimerStatus_def
      RequestTypeAddSeconds_def StateCountdown_def Second_def utf8_valid_def coerce_utf8_def
      cont_byte_def)

subsection \<open>What the client prints\<close>

text \<open>
  Claim C9. For a response with \<open>Success\<close> set to a status request, with phase
  countdown, the client prints \<open>int(d.Minutes())\<close> and \<open>int(d.Seconds()) % 60\<close> of the
  remaining duration \<open>d\<close>, each padded with zeros to at least two characters, with a
  colon between. For a duration of less than 262144 minutes in size these are the whole
  minutes \<open>d / time.Minute\<close> and the whole seconds \<open>d / time.Second % 60\<close>, and for a
  duration above minus one second and below 100 minutes they are exactly two digits
  each. With any other phase the client prints \<open>Idle\<close>. For a request of another type it
  prints the message of the response.
\<close>

theorem status_rendering:
  "(Type req = RequestTypeStatus \<and> State (Status resp) = StateCountdown \<longrightarrow>
      ctl_print req resp =
        [fmt_02d (Minutes_int (Duration (Status resp))) @ '':'' @
         fmt_02d (Seconds_int (Duration (Status resp)) smod 60)] \<and>
      2 \<le> length (fmt_02d (Minutes_int (Duration (Status resp)))) \<and>
      2 \<le> length (fmt_02d (Seconds_int (Duration (Status resp)) smod 60)) \<and>
      (\<bar>sint (Duration (Status resp))\<bar> < 15728640000000000 \<longrightarrow>
         Minutes_int (Duration (Status resp)) = sint (Duration (Status resp)) sdiv 60000000000 \<and>
         Seconds_int (Duration (Status resp)) = sint (Duration (Status resp)) sdiv 1000000000) \<and>
      (- 1000000000 < sint (Duration (Status resp)) \<and>
       sint (Duration (Status resp)) < 6000000000000 \<longrightarrow>
         ctl_print req resp =
           [[digit_char (nat (sint (Duration (Status resp)) sdiv 60000000000) div 10),
             digit_char (nat (sint (Duration (Status resp)) sdiv 60000000000) mod 10),
             CHR '':'',
             digit_char (nat ((sint (Duration (Status resp)) sdiv 1000000000) smod 60) div 10),
             digit_char (nat ((sint (Duration (Status resp)) sdiv 1000000000) smod 60) mod 10)]])) \<and>
   (Type req = RequestTypeStatus \<and> State (Status resp) \<noteq> StateCountdown \<longrightarrow>
      ctl_print req resp = [''Idle'']) \<and>
   (Type req \<noteq> RequestTypeStatus \<longrightarrow> ctl_print req resp = [Message resp]) \<and>
   (Success resp \<and> ctl_request args = Inr req \<longrightarrow>
      main_ctl args (Inr ()) (Inr ()) (Inr resp) = (0, ctl_print req resp))"
proof -
  let ?a = "sint (Duration (Status resp))"
  have fmt: "ctl_print req resp =
        [fmt_02d (Minutes_int (Duration (Status resp))) @ '':'' @
         fmt_02d (Seconds_int (Duration (Status resp)) smod 60)]"
    if "Type req = RequestTypeStatus" "State (Status resp) = StateCountdown"
    using that by (simp add: ctl_print_def)
  have exact: "Minutes_int (Duration (Status resp)) = ?a sdiv 60000000000 \<and>
         Seconds_int (Duration (Status resp)) = ?a sdiv 1000000000"
    if "\<bar>?a\<bar> < 15728640000000000"
    using that by (simp add: Minutes_int_exact Seconds_int_exact)
  have two: "ctl_print req resp =
           [[digit_char (nat (?a sdiv 60000000000) div 10),
             digit_char (nat (?a sdiv 60000000000) mod 10),
             CHR '':'',
             digit_char (nat ((?a sdiv 1000000000) smod 60) div 10),
             digit_char (nat ((?a sdiv 1000000000) smod 60) mod 10)]]"
    if h: "Type req = RequestTypeStatus" "State (Status resp) = StateCountdown"
      "- 1000000000 < ?a" "?a < 6000000000000"
  proof -
    from h have "\<bar>?a\<bar> < 15728640000000000" by simp
    note e = exact [OF this]
    note m = sdiv_minutes_small [OF h(3) h(4)]
    note s = sdiv_seconds_small [OF h(3)]
    have "fmt_02d (?a sdiv 60000000000) =
            [digit_char (nat (?a sdiv 60000000000) div 10),
             digit_char (nat (?a sdiv 60000000000) mod 10)]"
      using m by (intro fmt_02d_two_digits) simp_all
    moreover have "fmt_02d ((?a sdiv 1000000000) smod 60) =
            [digit_char (nat ((?a sdiv 1000000000) smod 60) div 10),
             digit_char (nat ((?a sdiv 1000000000) smod 60) mod 10)]"
      using s by (intro fmt_02d_two_digits) simp_all
    ultimately show ?thesis using fmt [OF h(1) h(2)] e by simp
  qed
  show ?thesis
    using fmt exact two
    by (auto simp: ctl_print_def main_ctl_def fmt_02d_width)
qed

theorem status_rendering_witness:
  "ctl_request [''pomidorasctl''] = Inr \<lparr>Type = RequestTypeStatus, Payload = []\<rparr> \<and>
   \<bar>sint (1500000000 :: Duration)\<bar> < 15728640000000000 \<and>
   - 1000000000 < sint (1500000000 :: Duration) \<and>
   sint (1500000000 :: Duration) < 6000000000000 \<and>
   Seconds_int 1500000000 = 1 \<and>
   main_ctl [''pomidorasctl''] (Inr ()) (Inr ())
       (Inr \<lparr>Success = True, Message = [],
             Status = \<lparr>State = StateCountdown, Duration = 1500000000\<rparr>\<rparr>) =
     (0, [''00:01'']) \<and>
   main_ctl [''pomidorasctl''] (Inr ()) (Inr ())
       (Inr \<lparr>Success = True, Message = [],
             Status = \<lparr>State = StateCountdown, Duration = 90 * Second\<rparr>\<rparr>) =
     (0, [''01:30'']) \<and>
   ctl_print \<lparr>Type = RequestTypeStatus, Payload = []\<rparr>
       \<lparr>Success = True, Message = [], Status = \<lparr>State = StateIdle, Duration = 0\<rparr>\<rparr> =
     [''Idle''] \<and>
   ctl_print \<lparr>Type = RequestTypeReset, Payload = []\<rparr>
       \<lparr>Success = True, Message = ''Timer reset.'', Status = zero_TimerStatus\<rparr> =
     [''Timer reset.'']"
  using status_rendering
      [of "\<lparr>Type = RequestTypeStatus, Payload = []\<rparr>"
          "\<lparr>Success = True, Message = [],
            Status = \<lparr>State = StateCountdown, Duration = 1500000000\<rparr>\<rparr>"
          "[''pomidorasctl'']"]
    status_rendering
      [of "\<lparr>Type = RequestTypeStatus, Payload = []\<rparr>"
          "\<lparr>Success = True, Message = [],
            Status = \<lparr>State = StateCountdown, Duration = 90 * Second\<rparr>\<rparr>"
          "[''pomidorasctl'']"]
    status_rendering
      [of "\<lparr>Type = RequestTypeStatus, Payload = []\<rparr>"
          "\<lparr>Success = True, Message = [], Status = \<lparr>State = StateIdle, Duration = 0\<rparr>\<rparr>"]
    status_rendering
      [of "\<lparr>Type = RequestTypeReset, Payload = []\<rparr>"
          "\<lparr>Success = True, Message = ''Timer reset.'', Status = zero_TimerStatus\<rparr>"]
  by (simp add: ctl_request_def zero_Request_def RequestTypeStatus_def RequestTypeReset_def
      StateCountdown_def StateIdle_def digit_char_def Second_def signed_divide_int_def
      signed_modulo_int_def fmt_02d_def zero_pad_def dec.simps)

text \<open>
  A countdown with 6000 seconds remaining is printed with three digits of minutes, one
  with minus one second remaining with a sign, and one with 262144 minutes and
  59.999999999 seconds remaining with 262145 minutes.
\<close>

theorem three_digit_minutes_counterexample:
  "main_ctl [''pomidorasctl''] (Inr ()) (Inr ())
       (Inr \<lparr>Success = True, Message = [],
             Status = \<lparr>State = StateCountdown, Duration = 6000 * Second\<rparr>\<rparr>) =
     (0, [''100:00'']) \<and>
   main_ctl [''pomidorasctl''] (Inr ()) (Inr ())
       (Inr \<lparr>Success = True, Message = [],
             Status = \<lparr>State = StateCountdown, Duration = - Second\<rparr>\<rparr>) =
     (0, [''00:-1'']) \<and>
   sint (15728699999999999 :: Duration) sdiv 60000000000 = 262144 \<and>
   main_ctl [''pomidorasctl''] (Inr ()) (Inr ())
       (Inr \<lparr>Success = True, Message = [],
             Status = \<lparr>State = StateCountdown, Duration = 15728699999999999\<rparr>\<rparr>) =
     (0, [''262145:59''])"
proof -
  have "Minutes_int (6000 * Second) = 100" "Seconds_int (6000 * Second) = 6000"
    "Minutes_int (- Second) = 0" "Seconds_int (- Second) = - 1"
    by (simp_all add: Minutes_int_exact Seconds_int_exact Second_def signed_divide_int_def)
  then show ?thesis
    using Minutes_rounds_up
    by (simp add: main_ctl_def ctl_request_def ctl_print_def zero_Request_def
        RequestTypeStatus_def StateCountdown_def signed_divide_int_def signed_modulo_int_def
        fmt_02d_def zero_pad_def dec.simps digit_char_def)
qed

text \<open>
  Further on the rounding reaches the seconds too: at 16777216.999999999 seconds the
  client prints \<open>279620:17\<close>.
\<close>

lemma rounding_is_printed:
  "ctl_print \<lparr>Type = RequestTypeStatus, Payload = []\<rparr>
       \<lparr>Success = True, Message = [],
        Status = \<lparr>State = StateCountdown, Duration = 16777216999999999\<rparr>\<rparr> =
     [''279620:17'']"
  using Seconds_rounds_up
  by (simp add: ctl_print_def signed_modulo_int_def fmt_02d_def zero_pad_def dec.simps
      digit_char_def)

subsection \<open>Status requests\<close>

text \<open>
  Claim C10. \<open>GetStatus\<close> returns the phase and the remaining duration and leaves the
  daemon as it was, and so does a status request through \<open>handleConnection\<close>: the timer,
  its tickers and its goroutines are unchanged.
\<close>

theorem status_request_reads_only:
  "GetStatus w = (\<lparr>State = state w, Duration = duration w\<rparr>, w) \<and>
   handleConnection (Inr \<lparr>Type = RequestTypeStatus, Payload = payload\<rparr>) w =
     (\<lparr>Success = True, Message = [], Status = \<lparr>State = state w, Duration = duration w\<rparr>\<rparr>, w) \<and>
   step CallGetStatus w = w"
  by (simp add: handleConnection_def GetStatus_def zero_Response_def)

theorem status_request_reads_only_witness:
  "handleConnection (Inr \<lparr>Type = RequestTypeStatus, Payload = []\<rparr>)
       (daemon_after [Enter 0, Tick 0, Receive 0, Iterate 0] (90 * Second)) =
     (\<lparr>Success = True, Message = [],
       Status = \<lparr>State = StateCountdown, Duration = 89 * Second\<rparr>\<rparr>,
      daemon_after [Enter 0, Tick 0, Receive 0, Iterate 0] (90 * Second))"
  using status_request_reads_only
      [of "daemon_after [Enter 0, Tick 0, Receive 0, Iterate 0] (90 * Second)" "[]"]
  by (simp add: timer_defs)

end
